theory Spec2Isabelle
  imports Complex_Main
begin

section \<open>Scalars\<close>

text \<open>
  The matrices of \<^verbatim>\<open>nystroem_method_impl.hpp\<close> are \<^verbatim>\<open>arma::mat\<close>, dense matrices of
  C++ \<^verbatim>\<open>double\<close>. A finite double is modelled by the real number it denotes and finite
  arithmetic is exact (no rounding, no overflow, a single zero). The IEEE special values
  are kept, because \<^verbatim>\<open>1.0 / sqrt(s)\<close> produces them: a division by zero gives an
  infinity, zero times infinity and the root of a negative number give NaN.
\<close>

datatype dbl = Fin real | PInf | NInf | NaN

fun dadd :: "dbl \<Rightarrow> dbl \<Rightarrow> dbl" where
  "dadd (Fin x) (Fin y) = Fin (x + y)"
| "dadd NaN _ = NaN"
| "dadd _ NaN = NaN"
| "dadd PInf NInf = NaN"
| "dadd NInf PInf = NaN"
| "dadd PInf _ = PInf"
| "dadd _ PInf = PInf"
| "dadd NInf _ = NInf"
| "dadd _ NInf = NInf"

definition inf_of_sign :: "real \<Rightarrow> dbl" where
  "inf_of_sign x = (if x = 0 then NaN else if 0 < x then PInf else NInf)"

fun dmul :: "dbl \<Rightarrow> dbl \<Rightarrow> dbl" where
  "dmul (Fin x) (Fin y) = Fin (x * y)"
| "dmul NaN _ = NaN"
| "dmul _ NaN = NaN"
| "dmul (Fin x) PInf = inf_of_sign x"
| "dmul (Fin x) NInf = inf_of_sign (- x)"
| "dmul PInf (Fin y) = inf_of_sign y"
| "dmul NInf (Fin y) = inf_of_sign (- y)"
| "dmul PInf PInf = PInf"
| "dmul PInf NInf = NInf"
| "dmul NInf PInf = NInf"
| "dmul NInf NInf = PInf"

text \<open>\<^verbatim>\<open>sqrt(x)\<close> on one entry.\<close>

fun dsqrt :: "dbl \<Rightarrow> dbl" where
  "dsqrt (Fin x) = (if x < 0 then NaN else Fin (sqrt x))"
| "dsqrt PInf = PInf"
| "dsqrt NInf = NaN"
| "dsqrt NaN = NaN"

text \<open>\<^verbatim>\<open>1.0 / y\<close> on one entry.\<close>

fun one_over :: "dbl \<Rightarrow> dbl" where
  "one_over (Fin y) = (if y = 0 then PInf else Fin (1 / y))"
| "one_over PInf = Fin 0"
| "one_over NInf = Fin 0"
| "one_over NaN = NaN"

fun is_finite :: "dbl \<Rightarrow> bool" where
  "is_finite (Fin x) = True"
| "is_finite _ = False"

section \<open>Errors\<close>

text \<open>
  \<open>InvalidArgument\<close> and \<open>ConvergenceError\<close> are the failures a selection policy may
  signal. The other four are Armadillo's: a matrix that cannot be constructed (its
  size is refused, or there is no memory for it), an element access
  \<^verbatim>\<open>M(i, j)\<close> or \<^verbatim>\<open>v(i)\<close> out of range, a column access \<^verbatim>\<open>M.col(j)\<close> out of range,
  and a product of matrices whose dimensions do not agree. An exception leaves the
  function at once; \<open>Inl\<close> carries it. The source adds no check to these: where a
  build switches Armadillo's checks off, the error value stands for the access out of
  range itself.
\<close>

datatype error =
  InvalidArgument | ConvergenceError | AllocError | ElemOutOfBounds | ColOutOfBounds
  | SizeMismatch

definition bind_res :: "error + 'a \<Rightarrow> ('a \<Rightarrow> error + 'b) \<Rightarrow> error + 'b" where
  "bind_res m f = (case m of Inl e \<Rightarrow> Inl e | Inr x \<Rightarrow> f x)"

text \<open>\<^verbatim>\<open>for (size_t i = 0; i < n; ++i) body\<close> runs \<open>for_each [0..<n] body\<close>.\<close>

primrec for_each :: "nat list \<Rightarrow> (nat \<Rightarrow> 's \<Rightarrow> error + 's) \<Rightarrow> 's \<Rightarrow> error + 's" where
  "for_each [] body s = Inr s"
| "for_each (i # is) body s = bind_res (body i s) (for_each is body)"

section \<open>Matrices\<close>

text \<open>
  An \<^verbatim>\<open>arma::mat\<close> is used through its dimensions, \<^verbatim>\<open>operator()(i, j)\<close> and
  \<^verbatim>\<open>col(j)\<close> only. Entry \<open>(i, j)\<close> is \<open>cell M (i, j)\<close>; the cells outside the
  dimensions are never read, and every matrix built here holds zero there.
\<close>

record mat =
  n_rows :: nat
  n_cols :: nat
  cell :: "nat \<times> nat \<Rightarrow> dbl"

type_synonym vec = "dbl list"

text \<open>
  \<^verbatim>\<open>arma::mat X(r, c)\<close>: the entries are whatever the allocated memory holds, given
  here by \<open>junk\<close>.
\<close>

definition uninit_mat :: "nat \<Rightarrow> nat \<Rightarrow> (nat \<times> nat \<Rightarrow> dbl) \<Rightarrow> mat" where
  "uninit_mat r c junk =
     \<lparr>n_rows = r, n_cols = c,
      cell = (\<lambda>(i, j). if i < r \<and> j < c then junk (i, j) else Fin 0)\<rparr>"

text \<open>
  The construction can fail: Armadillo refuses a size whose number of elements does not
  fit its word, and the allocator may have no memory left. \<open>room r c\<close> says whether
  the environment lets an \<open>r \<times> c\<close> matrix be constructed.
\<close>

definition new_mat ::
  "(nat \<Rightarrow> nat \<Rightarrow> bool) \<Rightarrow> nat \<Rightarrow> nat \<Rightarrow> (nat \<times> nat \<Rightarrow> dbl) \<Rightarrow> error + mat" where
  "new_mat room r c junk = (if room r c then Inr (uninit_mat r c junk) else Inl AllocError)"

text \<open>\<^verbatim>\<open>M.col(j)\<close>: the entries of column \<open>j\<close>, after the check of \<open>j\<close>.\<close>

definition col_vec :: "mat \<Rightarrow> nat \<Rightarrow> vec" where
  "col_vec M j = map (\<lambda>i. cell M (i, j)) [0..<n_rows M]"

definition col :: "mat \<Rightarrow> nat \<Rightarrow> error + vec" where
  "col M j = (if j < n_cols M then Inr (col_vec M j) else Inl ColOutOfBounds)"

definition set_at :: "mat \<Rightarrow> nat \<Rightarrow> nat \<Rightarrow> dbl \<Rightarrow> error + mat" where
  "set_at M i j v =
     (if i < n_rows M \<and> j < n_cols M then Inr (M\<lparr>cell := (cell M)((i, j) := v)\<rparr>)
      else Inl ElemOutOfBounds)"

text \<open>\<^verbatim>\<open>selectedPoints(i)\<close> on an \<^verbatim>\<open>arma::Col<size_t>\<close>.\<close>

definition idx_at :: "nat list \<Rightarrow> nat \<Rightarrow> error + nat" where
  "idx_at v i = (if i < length v then Inr (v ! i) else Inl ElemOutOfBounds)"

text \<open>
  The loop nest \<^verbatim>\<open>for (i < r) for (j < c) M(i, j) = rhs(i, j)\<close>: the right-hand side
  is evaluated, then stored.
\<close>

definition for_cells ::
  "nat \<Rightarrow> nat \<Rightarrow> (nat \<Rightarrow> nat \<Rightarrow> error + dbl) \<Rightarrow> mat \<Rightarrow> error + mat" where
  "for_cells r c rhs =
     for_each [0..<r] (\<lambda>i. for_each [0..<c] (\<lambda>j M. bind_res (rhs i j) (set_at M i j)))"

text \<open>
  The product \<^verbatim>\<open>A * B\<close>: \<open>times_mat\<close> is the product itself, each entry summed in
  the order of the inner index, and \<open>mul\<close> puts Armadillo's check of the inner
  dimensions before it.
\<close>

definition times_mat :: "mat \<Rightarrow> mat \<Rightarrow> mat" where
  "times_mat A B =
     \<lparr>n_rows = n_rows A, n_cols = n_cols B,
      cell = (\<lambda>(i, j). if i < n_rows A \<and> j < n_cols B
                then foldl dadd (Fin 0)
                       (map (\<lambda>k. dmul (cell A (i, k)) (cell B (k, j))) [0..<n_cols A])
                else Fin 0)\<rparr>"

definition mul :: "mat \<Rightarrow> mat \<Rightarrow> error + mat" where
  "mul A B = (if n_cols A = n_rows B then Inr (times_mat A B) else Inl SizeMismatch)"

text \<open>\<^verbatim>\<open>arma::diagmat(v)\<close>: the square matrix with \<open>v\<close> on its diagonal.\<close>

definition diagmat :: "vec \<Rightarrow> mat" where
  "diagmat v =
     \<lparr>n_rows = length v, n_cols = length v,
      cell = (\<lambda>(i, j). if i < length v \<and> i = j then v ! i else Fin 0)\<rparr>"

text \<open>The transpose.\<close>

definition trans_mat :: "mat \<Rightarrow> mat" where
  "trans_mat M =
     \<lparr>n_rows = n_cols M, n_cols = n_rows M,
      cell = (\<lambda>(i, j). if i < n_cols M \<and> j < n_rows M then cell M (j, i) else Fin 0)\<rparr>"

section \<open>The Nystroem method\<close>

text \<open>
  The member \<^verbatim>\<open>const arma::mat& data\<close> is a reference to a matrix of the caller, and
  the argument of \<^verbatim>\<open>Apply(arma::mat& output)\<close> is another; nothing keeps the two from
  being the same matrix. The matrices of the caller are therefore kept in a store,
  \<open>mats\<close>, from references to matrices, and the object holds the reference
  \<open>data_ref\<close> beside \<open>kernel\<close> and \<open>rank\<close>. \<open>cout\<close> is what has been written to
  \<^verbatim>\<open>std::cout\<close>: a line of text, or a matrix or vector printed by \<^verbatim>\<open>print\<close>.
  \<^verbatim>\<open>kernel.Evaluate\<close> is a function of its two points.
\<close>

type_synonym ref = nat

datatype event = Line string | PrintMat mat | PrintVec vec

record nystroem =
  mats :: "ref \<Rightarrow> mat"
  data_ref :: ref
  kernel :: "vec \<Rightarrow> vec \<Rightarrow> dbl"
  rank :: nat
  cout :: "event list"

text \<open>The dataset, read through the reference.\<close>

definition data :: "nystroem \<Rightarrow> mat" where
  "data st = mats st (data_ref st)"

definition print :: "event list \<Rightarrow> nystroem \<Rightarrow> nystroem" where
  "print es st = st\<lparr>cout := cout st @ es\<rparr>"

text \<open>
  What \<^verbatim>\<open>PointSelectionPolicy::Select\<close> returns: a vector of column indices, or a
  matrix whose columns are the selected points.
\<close>

datatype landmarks = Indices "nat list" | Points mat

text \<open>
  \<^verbatim>\<open>GetKernelMatrix(const arma::mat* selectedData, miniKernel, semiKernel)\<close>. The two
  matrices are passed by reference; the function returns them as it leaves them. The
  release of \<open>selectedData\<close> at the end frees memory that nothing reads afterwards and
  has no counterpart here.
\<close>

definition GetKernelMatrix_points ::
  "nystroem \<Rightarrow> mat \<Rightarrow> mat \<Rightarrow> mat \<Rightarrow> error + (mat \<times> mat)" where
  "GetKernelMatrix_points st selectedData miniKernel semiKernel =
     bind_res
       (for_cells (rank st) (rank st)
          (\<lambda>i j. bind_res (col selectedData i) (\<lambda>a.
                  bind_res (col selectedData j) (\<lambda>b.
                  Inr (kernel st a b))))
          miniKernel) (\<lambda>mk.
     bind_res
       (for_cells (n_cols (data st)) (rank st)
          (\<lambda>i j. bind_res (col (data st) i) (\<lambda>a.
                  bind_res (col selectedData j) (\<lambda>b.
                  Inr (kernel st a b))))
          semiKernel) (\<lambda>sk.
     Inr (mk, sk)))"

text \<open>
  \<^verbatim>\<open>GetKernelMatrix(const arma::Col<size_t>& selectedPoints, miniKernel, semiKernel)\<close>.
  The two arguments of \<^verbatim>\<open>Evaluate\<close> are taken from left to right; the order decides
  only which of two failing accesses is the one reported.
\<close>

definition GetKernelMatrix_indices ::
  "nystroem \<Rightarrow> nat list \<Rightarrow> mat \<Rightarrow> mat \<Rightarrow> error + (mat \<times> mat)" where
  "GetKernelMatrix_indices st selectedPoints miniKernel semiKernel =
     bind_res
       (for_cells (rank st) (rank st)
          (\<lambda>i j. bind_res (idx_at selectedPoints i) (\<lambda>p.
                  bind_res (col (data st) p) (\<lambda>a.
                  bind_res (idx_at selectedPoints j) (\<lambda>q.
                  bind_res (col (data st) q) (\<lambda>b.
                  Inr (kernel st a b))))))
          miniKernel) (\<lambda>mk.
     bind_res
       (for_cells (n_cols (data st)) (rank st)
          (\<lambda>i j. bind_res (col (data st) i) (\<lambda>a.
                  bind_res (idx_at selectedPoints j) (\<lambda>q.
                  bind_res (col (data st) q) (\<lambda>b.
                  Inr (kernel st a b)))))
          semiKernel) (\<lambda>sk.
     Inr (mk, sk)))"

text \<open>The overload is chosen by the type of what the policy returns.\<close>

fun GetKernelMatrix ::
  "nystroem \<Rightarrow> landmarks \<Rightarrow> mat \<Rightarrow> mat \<Rightarrow> error + (mat \<times> mat)" where
  "GetKernelMatrix st (Points selectedData) mk sk = GetKernelMatrix_points st selectedData mk sk"
| "GetKernelMatrix st (Indices selectedPoints) mk sk =
     GetKernelMatrix_indices st selectedPoints mk sk"

text \<open>\<^verbatim>\<open>arma::diagmat(1.0 / sqrt(s))\<close>\<close>

definition normalization_of :: "vec \<Rightarrow> mat" where
  "normalization_of s = diagmat (map (\<lambda>x. one_over (dsqrt x)) s)"

text \<open>
  \<^verbatim>\<open>Apply(arma::mat& output)\<close>, statement by statement. \<^verbatim>\<open>arma::svd\<close> belongs to
  Armadillo and the selection policy is a template parameter: both are parameters
  here, \<open>svd\<close> returning \<open>(U, s, V)\<close> and \<open>Select\<close> the landmarks or the error it
  throws. \<open>junk1\<close> and \<open>junk2\<close> are the initial contents of the two local matrices,
  which are constructed before \<open>Select\<close> is called. The product is taken from left
  to right, as the expression is written. \<open>output\<close> is the reference the caller
  passes. The result is the exception, if one was thrown, and the state the caller
  sees afterwards.
\<close>

definition Apply ::
  "(nat \<Rightarrow> nat \<Rightarrow> bool) \<Rightarrow> (mat \<Rightarrow> mat \<times> vec \<times> mat) \<Rightarrow>
   (mat \<Rightarrow> nat \<Rightarrow> error + landmarks) \<Rightarrow> (nat \<times> nat \<Rightarrow> dbl) \<Rightarrow> (nat \<times> nat \<Rightarrow> dbl) \<Rightarrow>
   ref \<Rightarrow> nystroem \<Rightarrow> error option \<times> nystroem" where
  "Apply room svd Select junk1 junk2 output st =
     (case new_mat room (rank st) (rank st) junk1 of Inl e \<Rightarrow> (Some e, st)
      | Inr miniKernel \<Rightarrow>
      case new_mat room (n_cols (data st)) (rank st) junk2 of Inl e \<Rightarrow> (Some e, st)
      | Inr semiKernel \<Rightarrow>
      case Select (data st) (rank st) of Inl e \<Rightarrow> (Some e, st)
      | Inr selected \<Rightarrow>
      case GetKernelMatrix st selected miniKernel semiKernel of Inl e \<Rightarrow> (Some e, st)
      | Inr (miniKernel, semiKernel) \<Rightarrow>
      let st = print [Line ''Print semiKernel in Apply method'', PrintMat semiKernel, Line [],
                      Line ''Print miniKernel in Apply method'', PrintMat miniKernel, Line []] st
      in case svd miniKernel of (U, s, V) \<Rightarrow>
      let st = print [Line ''Print U in Apply method'', PrintMat U, Line [],
                      Line ''Print V in Apply method'', PrintMat V, Line [],
                      Line ''Print s in Apply method'', PrintVec s, Line []] st;
          normalization = normalization_of s;
          st = print [Line ''Print normalization in Apply method'', PrintMat normalization,
                      Line []] st
      in case bind_res (mul semiKernel U) (\<lambda>t1.
              bind_res (mul t1 normalization) (\<lambda>t2.
              mul t2 V)) of
           Inl e \<Rightarrow> (Some e, st)
         | Inr G \<Rightarrow>
             let st = st\<lparr>mats := (mats st)(output := G)\<rparr>
             in (None, print [Line ''Print output in Apply method'', PrintMat (mats st output),
                              Line []] st))"

text \<open>
  The value that a call of \<^verbatim>\<open>Apply\<close> computes for \<^verbatim>\<open>output\<close>, or the exception that
  keeps it from the assignment: the statements of \<^verbatim>\<open>Apply\<close> without the printing and
  without the assignment. The proofs go through it.
\<close>

definition Apply_factor ::
  "(nat \<Rightarrow> nat \<Rightarrow> bool) \<Rightarrow> (mat \<Rightarrow> mat \<times> vec \<times> mat) \<Rightarrow>
   (mat \<Rightarrow> nat \<Rightarrow> error + landmarks) \<Rightarrow> (nat \<times> nat \<Rightarrow> dbl) \<Rightarrow> (nat \<times> nat \<Rightarrow> dbl) \<Rightarrow>
   nystroem \<Rightarrow> error + mat" where
  "Apply_factor room svd Select junk1 junk2 st =
     bind_res (new_mat room (rank st) (rank st) junk1) (\<lambda>miniKernel.
     bind_res (new_mat room (n_cols (data st)) (rank st) junk2) (\<lambda>semiKernel.
     bind_res (Select (data st) (rank st)) (\<lambda>selected.
     bind_res (GetKernelMatrix st selected miniKernel semiKernel) (\<lambda>(miniKernel, semiKernel).
     case svd miniKernel of (U, s, V) \<Rightarrow>
       bind_res (mul semiKernel U) (\<lambda>t1.
       bind_res (mul t1 (normalization_of s)) (\<lambda>t2.
       mul t2 V))))))"

section \<open>What the reconstruction is specified to be\<close>

text \<open>
  The specification's formula, in its words: \<open>OutputFactor = SemiKernel \<cdot> U \<cdot> N \<cdot> V\<^sup>t\<close>
  with \<open>N = diag(1/sqrt(s_i))\<close>.
\<close>

definition Reconstruct_spec :: "mat \<Rightarrow> mat \<Rightarrow> vec \<Rightarrow> mat \<Rightarrow> mat" where
  "Reconstruct_spec semiKernel U s V =
     times_mat (times_mat (times_mat semiKernel U) (normalization_of s)) (trans_mat V)"

text \<open>
  The exactness property, in the specification's words: the reconstructed
  \<open>OutputFactor \<cdot> OutputFactor\<^sup>t\<close> equals the true full kernel matrix to within a
  tolerance. \<open>gram G\<close> is the product, \<open>full_kernel\<close> the matrix of the kernel values
  of all pairs of points of the dataset, and \<open>within_tol tol x y\<close> holds for two finite
  values that differ by at most \<open>tol\<close>; an infinity or NaN is within no tolerance of
  anything.
\<close>

definition gram :: "mat \<Rightarrow> mat" where
  "gram G = times_mat G (trans_mat G)"

definition full_kernel :: "nystroem \<Rightarrow> mat" where
  "full_kernel st =
     \<lparr>n_rows = n_cols (data st), n_cols = n_cols (data st),
      cell = (\<lambda>(i, j). if i < n_cols (data st) \<and> j < n_cols (data st)
                then kernel st (col_vec (data st) i) (col_vec (data st) j) else Fin 0)\<rparr>"

fun within_tol :: "real \<Rightarrow> dbl \<Rightarrow> dbl \<Rightarrow> bool" where
  "within_tol tol (Fin x) (Fin y) = (\<bar>x - y\<bar> \<le> tol)"
| "within_tol tol _ _ = False"

text \<open>
  What it is for \<open>(U, s, U)\<close> to be a singular value decomposition of \<open>K\<close> of order \<open>n\<close>
  with positive singular values, as a positive definite matrix has: \<open>U\<close> is
  \<open>n \<times> n\<close> with finite entries, \<open>U\<^sup>t \<cdot> U\<close> and \<open>U \<cdot> U\<^sup>t\<close> are the identity, \<open>s\<close> has \<open>n\<close>
  finite positive entries, and \<open>U \<cdot> diag(s) \<cdot> U\<^sup>t\<close> is \<open>K\<close>.
\<close>

definition is_identity :: "nat \<Rightarrow> mat \<Rightarrow> bool" where
  "is_identity n M \<longleftrightarrow> (\<forall>i<n. \<forall>j<n. cell M (i, j) = (if i = j then Fin 1 else Fin 0))"

definition positive_svd :: "nat \<Rightarrow> mat \<Rightarrow> mat \<Rightarrow> vec \<Rightarrow> bool" where
  "positive_svd n K U s \<longleftrightarrow>
     n_rows U = n \<and> n_cols U = n \<and> length s = n \<and>
     (\<forall>i<n. \<forall>a<n. is_finite (cell U (i, a))) \<and>
     (\<forall>a<n. \<exists>x. 0 < x \<and> s ! a = Fin x) \<and>
     is_identity n (times_mat (trans_mat U) U) \<and>
     is_identity n (times_mat U (trans_mat U)) \<and>
     (\<forall>i<n. \<forall>j<n.
        cell (times_mat (times_mat U (diagmat s)) (trans_mat U)) (i, j) = cell K (i, j))"

text \<open>The real number that a finite value denotes.\<close>

fun re :: "dbl \<Rightarrow> real" where
  "re (Fin x) = x"
| "re _ = 0"

section \<open>The collaborators of \<^verbatim>\<open>Apply\<close>\<close>

text \<open>
  Modelled from the spec: the selection policies are template arguments whose code is
  not part of \<^verbatim>\<open>nystroem_method_impl.hpp\<close>. The specification gives the Ordered policy
  as returning the first \<open>rank\<close> dataset indices in their original order, and every
  index-based policy as signalling \<open>InvalidArgument\<close> when \<open>rank\<close> is zero or greater
  than the number of points.
\<close>

definition OrderedSelection :: "mat \<Rightarrow> nat \<Rightarrow> error + landmarks" where
  "OrderedSelection dataset m =
     (if m = 0 \<or> n_cols dataset < m then Inl InvalidArgument else Inr (Indices [0..<m]))"

text \<open>
  Modelled from the spec: the error condition that the specification places on the
  index-based selection policies, as a property of a policy.
\<close>

definition rejects_bad_rank :: "(mat \<Rightarrow> nat \<Rightarrow> error + landmarks) \<Rightarrow> bool" where
  "rejects_bad_rank Select \<longleftrightarrow>
     (\<forall>dataset m. m = 0 \<or> n_cols dataset < m \<longrightarrow> Select dataset m = Inl InvalidArgument)"

text \<open>
  What Armadillo documents of \<^verbatim>\<open>arma::svd(U, s, V, X)\<close>: on success \<open>U\<close> and \<open>V\<close> are
  square of the orders of \<open>X\<close> and \<open>s\<close> has one entry for each singular value; on
  failure the three results are reset to empty.
\<close>

definition svd_conforms :: "(mat \<Rightarrow> mat \<times> vec \<times> mat) \<Rightarrow> bool" where
  "svd_conforms svd \<longleftrightarrow>
     (\<forall>X. case svd X of (U, s, V) \<Rightarrow>
        (n_rows U = n_rows X \<and> n_cols U = n_rows X \<and>
         length s = min (n_rows X) (n_cols X) \<and>
         n_rows V = n_cols X \<and> n_cols V = n_cols X) \<or>
        (n_rows U = 0 \<and> n_cols U = 0 \<and> s = [] \<and> n_rows V = 0 \<and> n_cols V = 0))"

section \<open>Concrete inputs\<close>

text \<open>A matrix written out by rows, as an initialiser list.\<close>

definition mat_of_rows :: "dbl list list \<Rightarrow> mat" where
  "mat_of_rows rows =
     \<lparr>n_rows = length rows, n_cols = (case rows of [] \<Rightarrow> 0 | r # _ \<Rightarrow> length r),
      cell = (\<lambda>(i, j). if i < length rows \<and> j < length (rows ! i) then rows ! i ! j else Fin 0)\<rparr>"

definition rows_of :: "mat \<Rightarrow> dbl list list" where
  "rows_of M = map (\<lambda>i. map (\<lambda>j. cell M (i, j)) [0..<n_cols M]) [0..<n_rows M]"

text \<open>Two possible contents of freshly allocated memory.\<close>

definition junk_nan :: "nat \<times> nat \<Rightarrow> dbl" where
  "junk_nan p = NaN"

definition junk_seven :: "nat \<times> nat \<Rightarrow> dbl" where
  "junk_seven p = Fin 7"

text \<open>The linear kernel, the inner product of the two points.\<close>

definition lin_kernel :: "vec \<Rightarrow> vec \<Rightarrow> dbl" where
  "lin_kernel a b =
     foldl dadd (Fin 0) (map (\<lambda>k. dmul (a ! k) (b ! k)) [0..<min (length a) (length b)])"

definition identity_mat :: "nat \<Rightarrow> mat" where
  "identity_mat n = diagmat (replicate n (Fin 1))"

text \<open>
  A singular value decomposition for diagonal matrices whose diagonal is non-negative
  and descending: \<open>X = I \<cdot> diag(x\<^sub>0\<^sub>0, x\<^sub>1\<^sub>1, \<dots>) \<cdot> I\<^sup>t\<close>.
\<close>

definition diag_svd :: "mat \<Rightarrow> mat \<times> vec \<times> mat" where
  "diag_svd X =
     (identity_mat (n_rows X),
      map (\<lambda>i. cell X (i, i)) [0..<min (n_rows X) (n_cols X)],
      identity_mat (n_cols X))"

text \<open>
  Factors of the same dimensions as those of \<open>diag_svd\<close>, with every singular value
  one.
\<close>

definition ones_svd :: "mat \<Rightarrow> mat \<times> vec \<times> mat" where
  "ones_svd X =
     (identity_mat (n_rows X), replicate (min (n_rows X) (n_cols X)) (Fin 1),
      identity_mat (n_cols X))"

text \<open>
  The decomposition of \<open>diag(1, 16, 4)\<close>: the singular values in descending order are
  \<open>16, 4, 1\<close>, and \<open>U = V\<close> is the permutation matrix that puts them in that order.
\<close>

definition shift3 :: mat where
  "shift3 = mat_of_rows [[Fin 0, Fin 0, Fin 1], [Fin 1, Fin 0, Fin 0], [Fin 0, Fin 1, Fin 0]]"

definition perm_svd :: "mat \<Rightarrow> mat \<times> vec \<times> mat" where
  "perm_svd X = (shift3, [Fin 16, Fin 4, Fin 1], shift3)"

text \<open>
  An environment in which a matrix can be constructed when its entries, of eight bytes
  each, take fewer than \<open>2\<^sup>6\<^sup>4\<close> bytes: no machine with 64-bit addresses gives more.
\<close>

definition room64 :: "nat \<Rightarrow> nat \<Rightarrow> bool" where
  "room64 r c \<longleftrightarrow> r * c < 2 ^ 61"

text \<open>
  A caller with two matrices: the dataset at reference 0 and an empty matrix, for the
  output, at reference 1. Nothing has been printed yet.
\<close>

definition caller :: "mat \<Rightarrow> nat \<Rightarrow> nystroem" where
  "caller dataset m =
     \<lparr>mats = (\<lambda>r. if r = 0 then dataset else mat_of_rows []), data_ref = 0,
      kernel = lin_kernel, rank = m, cout = []\<rparr>"

text \<open>One point of dimension one with coordinate \<open>x\<close>, and rank \<open>m\<close>.\<close>

definition one_point :: "real \<Rightarrow> nat \<Rightarrow> nystroem" where
  "one_point x m = caller (mat_of_rows [[Fin x]]) m"

text \<open>One point and the rank \<open>2\<^sup>3\<^sup>3\<close>.\<close>

definition huge_rank :: nystroem where
  "huge_rank = one_point 1 (2 ^ 33)"

text \<open>The two points \<open>(2, 0)\<close> and \<open>(0, 1)\<close>, and rank \<open>m\<close>.\<close>

definition two_axes :: "nat \<Rightarrow> nystroem" where
  "two_axes m = caller (mat_of_rows [[Fin 2, Fin 0], [Fin 0, Fin 1]]) m"

text \<open>
  Two points of dimension one, 1 and 2, with rank two; two landmark points 3 and 5 that
  are not in the dataset.
\<close>

definition two_points :: nystroem where
  "two_points = caller (mat_of_rows [[Fin 1, Fin 2]]) 2"

definition run_points :: "error + mat \<times> mat" where
  "run_points =
     GetKernelMatrix_points two_points (mat_of_rows [[Fin 3, Fin 5]])
       (uninit_mat 2 2 junk_nan) (uninit_mat 2 2 junk_seven)"

definition run_indices :: "error + mat \<times> mat" where
  "run_indices =
     GetKernelMatrix_indices two_points [1, 0]
       (uninit_mat 2 2 junk_nan) (uninit_mat 2 2 junk_seven)"

text \<open>
  The index-based overload on the two points \<open>(2, 0)\<close> and \<open>(0, 1)\<close> with rank one and
  the selected indices 0 and 5, of which only the first is a column of the dataset.
\<close>

definition run_beyond :: "error + mat \<times> mat" where
  "run_beyond =
     GetKernelMatrix_indices (two_axes 1) [0, 5]
       (uninit_mat 1 1 junk_nan) (uninit_mat 2 1 junk_seven)"

text \<open>Three points \<open>e\<^sub>1, 4 e\<^sub>2, 2 e\<^sub>3\<close> of dimension three; rank three.\<close>

definition three_points :: nystroem where
  "three_points =
     caller (mat_of_rows [[Fin 1, Fin 0, Fin 0], [Fin 0, Fin 4, Fin 0], [Fin 0, Fin 0, Fin 2]]) 3"

text \<open>
  The two blocks that \<^verbatim>\<open>GetKernelMatrix\<close> builds for the three points when the
  landmarks are the columns 0, 1 and 2.
\<close>

definition blocks3 :: "mat \<times> mat" where
  "blocks3 = projr (GetKernelMatrix three_points (Indices [0, 1, 2])
                     (uninit_mat 3 3 junk_nan) (uninit_mat 3 3 junk_nan))"

text \<open>The blocks for the single point 0 with itself as the landmark.\<close>

definition blocks1 :: "mat \<times> mat" where
  "blocks1 = projr (GetKernelMatrix (one_point 0 1) (Indices [0])
                     (uninit_mat 1 1 junk_nan) (uninit_mat 1 1 junk_nan))"

text \<open>Two matrices of the same dimensions; two results of a decomposition likewise.\<close>

definition same_dims :: "mat \<Rightarrow> mat \<Rightarrow> bool" where
  "same_dims A B \<longleftrightarrow> n_rows A = n_rows B \<and> n_cols A = n_cols B"

definition same_shapes :: "mat \<times> vec \<times> mat \<Rightarrow> mat \<times> vec \<times> mat \<Rightarrow> bool" where
  "same_shapes r r' \<longleftrightarrow>
     same_dims (fst r) (fst r') \<and> length (fst (snd r)) = length (fst (snd r')) \<and>
     same_dims (snd (snd r)) (snd (snd r'))"

section \<open>Sequencing and loop nests\<close>

lemma bind_res_Inl [simp]: "bind_res (Inl e) f = Inl e"
  by (simp add: bind_res_def)

lemma bind_res_Inr [simp]: "bind_res (Inr x) f = f x"
  by (simp add: bind_res_def)

lemma bind_res_eq_Inr: "bind_res m f = Inr y \<longleftrightarrow> (\<exists>x. m = Inr x \<and> f x = Inr y)"
  by (cases m) simp_all

lemma set_at_eq_Inr:
  "set_at M i j v = Inr M' \<longleftrightarrow>
     i < n_rows M \<and> j < n_cols M \<and> M' = M\<lparr>cell := (cell M)((i, j) := v)\<rparr>"
  by (auto simp: set_at_def)

lemma col_eq_Inr: "col M j = Inr a \<longleftrightarrow> j < n_cols M \<and> a = col_vec M j"
  by (auto simp: col_def)

lemma idx_at_eq_Inr: "idx_at v i = Inr p \<longleftrightarrow> i < length v \<and> p = v ! i"
  by (auto simp: idx_at_def)

lemma mul_eq_Inr: "mul A B = Inr C \<longleftrightarrow> n_cols A = n_rows B \<and> C = times_mat A B"
  by (auto simp: mul_def)

lemma times_mat_dims [simp]:
  "n_rows (times_mat A B) = n_rows A" "n_cols (times_mat A B) = n_cols B"
  by (simp_all add: times_mat_def)

lemma normalization_of_dims [simp]:
  "n_rows (normalization_of s) = length s" "n_cols (normalization_of s) = length s"
  by (simp_all add: normalization_of_def diagmat_def)

text \<open>
  One row of a loop nest that ends normally has stored the right-hand sides in the
  cells of that row and touched nothing else.
\<close>

lemma row_loop_Inr:
  "for_each js (\<lambda>j M. bind_res (rhs j) (set_at M i j)) M = Inr M' \<Longrightarrow>
     n_rows M' = n_rows M \<and> n_cols M' = n_cols M \<and>
     (\<forall>j\<in>set js. rhs j = Inr (cell M' (i, j))) \<and>
     (\<forall>a b. \<not> (a = i \<and> b \<in> set js) \<longrightarrow> cell M' (a, b) = cell M (a, b))"
proof (induction js arbitrary: M)
  case Nil
  then show ?case by simp
next
  case (Cons j js)
  from Cons.prems obtain v M1 where v: "rhs j = Inr v"
    and M1: "set_at M i j v = Inr M1"
    and rest: "for_each js (\<lambda>j M. bind_res (rhs j) (set_at M i j)) M1 = Inr M'"
    by (auto simp: bind_res_eq_Inr)
  from M1 have M1_eq: "M1 = M\<lparr>cell := (cell M)((i, j) := v)\<rparr>"
    by (simp add: set_at_eq_Inr)
  note IH = Cons.IH [OF rest]
  have dims: "n_rows M' = n_rows M \<and> n_cols M' = n_cols M"
    using IH M1_eq by simp
  have other: "\<forall>a b. \<not> (a = i \<and> b \<in> set (j # js)) \<longrightarrow> cell M' (a, b) = cell M (a, b)"
    using IH M1_eq by auto
  have here: "rhs j = Inr (cell M' (i, j))"
  proof (cases "j \<in> set js")
    case True
    with IH show ?thesis by blast
  next
    case False
    with IH have "cell M' (i, j) = cell M1 (i, j)" by blast
    with M1_eq v show ?thesis by simp
  qed
  from dims other here IH show ?case by simp
qed

lemma for_cells_Inr:
  assumes "for_cells r c rhs M = Inr M'"
  shows "n_rows M' = n_rows M" and "n_cols M' = n_cols M"
    and "\<And>i j. i < r \<Longrightarrow> j < c \<Longrightarrow> rhs i j = Inr (cell M' (i, j))"
    and "\<And>i j. \<not> (i < r \<and> j < c) \<Longrightarrow> cell M' (i, j) = cell M (i, j)"
proof -
  have gen: "for_each is (\<lambda>i. for_each js (\<lambda>j M. bind_res (rhs i j) (set_at M i j))) M = Inr M' \<Longrightarrow>
     n_rows M' = n_rows M \<and> n_cols M' = n_cols M \<and>
     (\<forall>i\<in>set is. \<forall>j\<in>set js. rhs i j = Inr (cell M' (i, j))) \<and>
     (\<forall>a b. \<not> (a \<in> set is \<and> b \<in> set js) \<longrightarrow> cell M' (a, b) = cell M (a, b))"
    for "is" js M M'
  proof (induction "is" arbitrary: M)
    case Nil
    then show ?case by simp
  next
    case (Cons i "is")
    from Cons.prems obtain M1
      where row: "for_each js (\<lambda>j M. bind_res (rhs i j) (set_at M i j)) M = Inr M1"
        and rest: "for_each is (\<lambda>i. for_each js (\<lambda>j M. bind_res (rhs i j) (set_at M i j))) M1 = Inr M'"
      by (auto simp: bind_res_eq_Inr)
    note R = row_loop_Inr [OF row]
    note IH = Cons.IH [OF rest]
    have dims: "n_rows M' = n_rows M \<and> n_cols M' = n_cols M"
      using IH R by simp
    have other: "\<forall>a b. \<not> (a \<in> set (i # is) \<and> b \<in> set js) \<longrightarrow> cell M' (a, b) = cell M (a, b)"
      using IH R by auto
    have here: "\<forall>j\<in>set js. rhs i j = Inr (cell M' (i, j))"
    proof (cases "i \<in> set is")
      case True
      with IH show ?thesis by blast
    next
      case False
      with IH have "\<forall>j. cell M' (i, j) = cell M1 (i, j)" by blast
      with R show ?thesis by simp
    qed
    from dims other here IH show ?case by simp
  qed
  from assms have "for_each [0..<r] (\<lambda>i. for_each [0..<c] (\<lambda>j M. bind_res (rhs i j) (set_at M i j))) M = Inr M'"
    by (simp add: for_cells_def)
  from gen [OF this]
  show "n_rows M' = n_rows M" and "n_cols M' = n_cols M"
    and "\<And>i j. i < r \<Longrightarrow> j < c \<Longrightarrow> rhs i j = Inr (cell M' (i, j))"
    and "\<And>i j. \<not> (i < r \<and> j < c) \<Longrightarrow> cell M' (i, j) = cell M (i, j)"
    by auto
qed

text \<open>
  A loop nest over cells inside the matrix ends normally when every right-hand side
  does, and ends with the error \<open>e\<close> when \<open>e\<close> is the only error a right-hand side can
  give and one of them gives it.
\<close>

lemma row_loop_total:
  "i < n_rows M \<Longrightarrow> \<forall>j\<in>set js. j < n_cols M \<and> (\<exists>v. rhs j = Inr v) \<Longrightarrow>
     \<exists>M'. for_each js (\<lambda>j M. bind_res (rhs j) (set_at M i j)) M = Inr M'"
proof (induction js arbitrary: M)
  case Nil
  then show ?case by simp
next
  case (Cons j js)
  then obtain v where v: "rhs j = Inr v" by auto
  let ?M1 = "M\<lparr>cell := (cell M)((i, j) := v)\<rparr>"
  have step: "set_at M i j v = Inr ?M1"
    using Cons.prems by (simp add: set_at_def)
  have "\<exists>M'. for_each js (\<lambda>j M. bind_res (rhs j) (set_at M i j)) ?M1 = Inr M'"
    using Cons.prems by (intro Cons.IH) simp_all
  with v step show ?case by simp
qed

lemma for_cells_total:
  assumes "r \<le> n_rows M" and "c \<le> n_cols M"
    and "\<And>i j. i < r \<Longrightarrow> j < c \<Longrightarrow> \<exists>v. rhs i j = Inr v"
  shows "\<exists>M'. for_cells r c rhs M = Inr M'"
proof -
  have gen: "\<forall>i\<in>set is. i < r \<Longrightarrow> r \<le> n_rows M \<Longrightarrow> c \<le> n_cols M \<Longrightarrow>
     \<exists>M'. for_each is (\<lambda>i. for_each [0..<c] (\<lambda>j M. bind_res (rhs i j) (set_at M i j))) M = Inr M'"
    for "is" M
  proof (induction "is" arbitrary: M)
    case Nil
    then show ?case by simp
  next
    case (Cons i "is")
    have "\<exists>M1. for_each [0..<c] (\<lambda>j M. bind_res (rhs i j) (set_at M i j)) M = Inr M1"
      using Cons.prems assms(3) by (intro row_loop_total) auto
    then obtain M1
      where row: "for_each [0..<c] (\<lambda>j M. bind_res (rhs i j) (set_at M i j)) M = Inr M1" ..
    from row_loop_Inr [OF row] Cons.prems
    have "r \<le> n_rows M1" and "c \<le> n_cols M1" by simp_all
    with Cons.prems
    have "\<exists>M'. for_each is (\<lambda>i. for_each [0..<c] (\<lambda>j M. bind_res (rhs i j) (set_at M i j))) M1 = Inr M'"
      by (intro Cons.IH) simp_all
    with row show ?case by simp
  qed
  show ?thesis
    unfolding for_cells_def using assms(1,2) by (intro gen) simp_all
qed

lemma row_loop_fails:
  "i < n_rows M \<Longrightarrow> \<forall>j\<in>set js. j < n_cols M \<and> ((\<exists>v. rhs j = Inr v) \<or> rhs j = Inl e) \<Longrightarrow>
   \<exists>j\<in>set js. rhs j = Inl e \<Longrightarrow>
     for_each js (\<lambda>j M. bind_res (rhs j) (set_at M i j)) M = Inl e"
proof (induction js arbitrary: M)
  case Nil
  then show ?case by simp
next
  case (Cons j js)
  show ?case
  proof (cases "rhs j")
    case (Inl e')
    with Cons.prems have "e' = e" by auto
    with Inl show ?thesis by simp
  next
    case (Inr v)
    let ?M1 = "M\<lparr>cell := (cell M)((i, j) := v)\<rparr>"
    have step: "set_at M i j v = Inr ?M1"
      using Cons.prems by (simp add: set_at_def)
    from Inr Cons.prems have ex: "\<exists>j\<in>set js. rhs j = Inl e" by auto
    have "for_each js (\<lambda>j M. bind_res (rhs j) (set_at M i j)) ?M1 = Inl e"
      using Cons.prems ex by (intro Cons.IH) simp_all
    with Inr step show ?thesis by simp
  qed
qed

lemma for_cells_fails:
  assumes "r \<le> n_rows M" and "c \<le> n_cols M"
    and ok: "\<And>i j. i < r \<Longrightarrow> j < c \<Longrightarrow> (\<exists>v. rhs i j = Inr v) \<or> rhs i j = Inl e"
    and bad: "i0 < r" "j0 < c" "rhs i0 j0 = Inl e"
  shows "for_cells r c rhs M = Inl e"
proof -
  have gen: "\<forall>i\<in>set is. i < r \<Longrightarrow> i0 \<in> set is \<Longrightarrow> r \<le> n_rows M \<Longrightarrow> c \<le> n_cols M \<Longrightarrow>
     for_each is (\<lambda>i. for_each [0..<c] (\<lambda>j M. bind_res (rhs i j) (set_at M i j))) M = Inl e"
    for "is" M
  proof (induction "is" arbitrary: M)
    case Nil
    then show ?case by simp
  next
    case (Cons i "is")
    show ?case
    proof (cases "\<exists>j<c. rhs i j = Inl e")
      case True
      have "for_each [0..<c] (\<lambda>j M. bind_res (rhs i j) (set_at M i j)) M = Inl e"
        using Cons.prems ok True by (intro row_loop_fails) auto
      then show ?thesis by simp
    next
      case False
      with bad have "i \<noteq> i0" by auto
      with Cons.prems have i0: "i0 \<in> set is" by simp
      have "\<exists>v. rhs i j = Inr v" if "j < c" for j
        using ok [of i j] False that Cons.prems(1) by auto
      then have "\<exists>M1. for_each [0..<c] (\<lambda>j M. bind_res (rhs i j) (set_at M i j)) M = Inr M1"
        using Cons.prems by (intro row_loop_total) auto
      then obtain M1
        where row: "for_each [0..<c] (\<lambda>j M. bind_res (rhs i j) (set_at M i j)) M = Inr M1" ..
      from row_loop_Inr [OF row] Cons.prems
      have "r \<le> n_rows M1" and "c \<le> n_cols M1" by simp_all
      with Cons.prems i0
      have "for_each is (\<lambda>i. for_each [0..<c] (\<lambda>j M. bind_res (rhs i j) (set_at M i j))) M1 = Inl e"
        by (intro Cons.IH) simp_all
      with row show ?thesis by simp
    qed
  qed
  show ?thesis
    unfolding for_cells_def using assms(1,2) bad(1) by (intro gen) simp_all
qed

text \<open>
  Which checks fail does not depend on what the cells hold: two runs over matrices of
  the same dimensions end alike.
\<close>

lemma for_each_sim:
  assumes "R s t"
    and "\<And>x s t. R s t \<Longrightarrow> rel_sum (=) R (body x s) (body x t)"
  shows "rel_sum (=) R (for_each xs body s) (for_each xs body t)"
  using assms(1)
proof (induction xs arbitrary: s t)
  case Nil
  then show ?case by simp
next
  case (Cons x xs)
  have "rel_sum (=) R (body x s) (body x t)"
    using assms(2) Cons.prems by blast
  then show ?case
    by (cases "body x s"; cases "body x t") (simp_all add: Cons.IH)
qed

lemma for_cells_sim:
  assumes "same_dims M N"
  shows "rel_sum (=) same_dims (for_cells r c rhs M) (for_cells r c rhs N)"
  unfolding for_cells_def using assms
proof (rule for_each_sim)
  fix i A B
  assume "same_dims A B"
  then show "rel_sum (=) same_dims
       (for_each [0..<c] (\<lambda>j M. bind_res (rhs i j) (set_at M i j)) A)
       (for_each [0..<c] (\<lambda>j M. bind_res (rhs i j) (set_at M i j)) B)"
  proof (rule for_each_sim)
    fix j A B
    assume "same_dims A B"
    then show "rel_sum (=) same_dims (bind_res (rhs i j) (set_at A i j)) (bind_res (rhs i j) (set_at B i j))"
      by (cases "rhs i j") (auto simp: set_at_def same_dims_def)
  qed
qed

section \<open>\<^verbatim>\<open>Apply\<close>\<close>

lemma data_print [simp]: "data (print es st) = data st"
  by (simp add: data_def print_def)

lemma print_members [simp]:
  "mats (print es st) = mats st" "data_ref (print es st) = data_ref st"
  "kernel (print es st) = kernel st" "rank (print es st) = rank st"
  "cout (print es st) = cout st @ es"
  by (simp_all add: print_def)

text \<open>
  What a call does to the state, in terms of the value it computes: the outcome, the
  store, the members and the output stream.
\<close>

lemma Apply_fst:
  "fst (Apply room svd Select g1 g2 output st) =
     (case Apply_factor room svd Select g1 g2 st of Inl e \<Rightarrow> Some e | Inr G \<Rightarrow> None)"
  by (simp add: Apply_def Apply_factor_def Let_def split: sum.splits prod.splits)

lemma Apply_mats:
  "mats (snd (Apply room svd Select g1 g2 output st)) =
     (case Apply_factor room svd Select g1 g2 st of
        Inl e \<Rightarrow> mats st | Inr G \<Rightarrow> (mats st)(output := G))"
  by (simp add: Apply_def Apply_factor_def Let_def split: sum.splits prod.splits)

lemma Apply_members:
  "data_ref (snd (Apply room svd Select g1 g2 output st)) = data_ref st"
  "kernel (snd (Apply room svd Select g1 g2 output st)) = kernel st"
  "rank (snd (Apply room svd Select g1 g2 output st)) = rank st"
  by (simp_all add: Apply_def Let_def split: sum.splits prod.splits)

lemma Apply_cout:
  "\<exists>es. cout (snd (Apply room svd Select g1 g2 output st)) = cout st @ es \<and>
        (fst (Apply room svd Select g1 g2 output st) = None \<longrightarrow> es \<noteq> [])"
  by (simp add: Apply_def Let_def split: sum.splits prod.splits)

lemma Apply_success:
  "fst (Apply room svd Select g1 g2 output st) = None \<longleftrightarrow>
     Apply_factor room svd Select g1 g2 st =
       Inr (mats (snd (Apply room svd Select g1 g2 output st)) output)"
  by (simp add: Apply_fst Apply_mats split: sum.splits)

lemma Apply_factor_Inr:
  assumes "Apply_factor room svd Select g1 g2 st = Inr G"
  obtains selected miniKernel semiKernel U s V where
    "room (rank st) (rank st)" "room (n_cols (data st)) (rank st)"
    "Select (data st) (rank st) = Inr selected"
    "GetKernelMatrix st selected (uninit_mat (rank st) (rank st) g1)
       (uninit_mat (n_cols (data st)) (rank st) g2) = Inr (miniKernel, semiKernel)"
    "svd miniKernel = (U, s, V)"
    "n_cols semiKernel = n_rows U" "n_cols U = length s" "length s = n_rows V"
    "G = times_mat (times_mat (times_mat semiKernel U) (normalization_of s)) V"
proof -
  from assms have room: "room (rank st) (rank st)" "room (n_cols (data st)) (rank st)"
    by (auto simp: Apply_factor_def new_mat_def bind_res_eq_Inr split: if_splits)
  with assms obtain selected blocks where sel: "Select (data st) (rank st) = Inr selected"
    and gkm: "GetKernelMatrix st selected (uninit_mat (rank st) (rank st) g1)
       (uninit_mat (n_cols (data st)) (rank st) g2) = Inr blocks"
    and rest: "(case blocks of (miniKernel, semiKernel) \<Rightarrow>
         case svd miniKernel of (U, s, V) \<Rightarrow>
           bind_res (mul semiKernel U) (\<lambda>t1.
           bind_res (mul t1 (normalization_of s)) (\<lambda>t2.
           mul t2 V))) = Inr G"
    by (auto simp: Apply_factor_def new_mat_def bind_res_eq_Inr)
  obtain miniKernel semiKernel where blocks: "blocks = (miniKernel, semiKernel)"
    by (cases blocks)
  obtain U s V where svd: "svd miniKernel = (U, s, V)"
    by (cases "svd miniKernel")
  from rest blocks svd
  have "n_cols semiKernel = n_rows U \<and> n_cols U = length s \<and> length s = n_rows V \<and>
        G = times_mat (times_mat (times_mat semiKernel U) (normalization_of s)) V"
    by (auto simp: bind_res_eq_Inr mul_eq_Inr)
  with room sel gkm blocks svd that show thesis by blast
qed

section \<open>Evaluating the concrete inputs\<close>

lemma upt2: "[0..<2] = [0, 1]"
  by (simp add: upt_rec)

lemmas eval_model =
  Apply_fst Apply_mats Apply_factor_def new_mat_def room64_def OrderedSelection_def
  GetKernelMatrix_indices_def GetKernelMatrix_points_def for_cells_def uninit_mat_def
  mat_of_rows_def col_def col_vec_def idx_at_def set_at_def lin_kernel_def diagmat_def mul_def
  times_mat_def normalization_of_def junk_nan_def junk_seven_def rows_of_def inf_of_sign_def
  data_def caller_def upt2

lemmas eval_two_points = eval_model two_points_def run_points_def run_indices_def

lemmas eval_two_axes = eval_model two_axes_def diag_svd_def identity_mat_def

lemma dmul_commute: "dmul x y = dmul y x"
  by (cases x; cases y) (simp_all add: mult.commute)

lemma lin_kernel_commute: "lin_kernel a b = lin_kernel b a"
  by (simp add: lin_kernel_def dmul_commute [of "a ! _"] min.commute)

lemma svd_conforms_diag_svd: "svd_conforms diag_svd"
  by (simp add: svd_conforms_def diag_svd_def identity_mat_def diagmat_def)

lemma rejects_bad_rank_Ordered: "rejects_bad_rank OrderedSelection"
  by (simp add: rejects_bad_rank_def OrderedSelection_def)

lemma run_points_Inr: "run_points = Inr (fst (projr run_points), snd (projr run_points))"
  by (simp add: eval_two_points)

lemma run_indices_Inr: "run_indices = Inr (fst (projr run_indices), snd (projr run_indices))"
  by (simp add: eval_two_points)

section \<open>The kernel blocks\<close>

lemma GetKernelMatrix_points_Inr:
  assumes "GetKernelMatrix_points st selectedData miniKernel semiKernel = Inr (mk, sk)"
  shows "n_rows mk = n_rows miniKernel" and "n_cols mk = n_cols miniKernel"
    and "n_rows sk = n_rows semiKernel" and "n_cols sk = n_cols semiKernel"
    and "\<And>i j. i < rank st \<Longrightarrow> j < rank st \<Longrightarrow>
           cell mk (i, j) = kernel st (col_vec selectedData i) (col_vec selectedData j)"
    and "\<And>i j. i < n_cols (data st) \<Longrightarrow> j < rank st \<Longrightarrow>
           cell sk (i, j) = kernel st (col_vec (data st) i) (col_vec selectedData j)"
proof -
  let ?rhs1 = "\<lambda>i j. bind_res (col selectedData i) (\<lambda>a.
                  bind_res (col selectedData j) (\<lambda>b. Inr (kernel st a b)))"
  let ?rhs2 = "\<lambda>i j. bind_res (col (data st) i) (\<lambda>a.
                  bind_res (col selectedData j) (\<lambda>b. Inr (kernel st a b)))"
  from assms have m: "for_cells (rank st) (rank st) ?rhs1 miniKernel = Inr mk"
    and s: "for_cells (n_cols (data st)) (rank st) ?rhs2 semiKernel = Inr sk"
    by (auto simp: GetKernelMatrix_points_def bind_res_eq_Inr)
  note M = for_cells_Inr [OF m] and S = for_cells_Inr [OF s]
  show "n_rows mk = n_rows miniKernel" "n_cols mk = n_cols miniKernel"
    "n_rows sk = n_rows semiKernel" "n_cols sk = n_cols semiKernel"
    by (rule M S)+
  show "cell mk (i, j) = kernel st (col_vec selectedData i) (col_vec selectedData j)"
    if "i < rank st" "j < rank st" for i j
    using M(3) [OF that] by (auto simp: bind_res_eq_Inr col_eq_Inr)
  show "cell sk (i, j) = kernel st (col_vec (data st) i) (col_vec selectedData j)"
    if "i < n_cols (data st)" "j < rank st" for i j
    using S(3) [OF that] by (auto simp: bind_res_eq_Inr col_eq_Inr)
qed

lemma GetKernelMatrix_indices_Inr:
  assumes "GetKernelMatrix_indices st selectedPoints miniKernel semiKernel = Inr (mk, sk)"
  shows "n_rows mk = n_rows miniKernel" and "n_cols mk = n_cols miniKernel"
    and "n_rows sk = n_rows semiKernel" and "n_cols sk = n_cols semiKernel"
    and "\<And>i j. i < rank st \<Longrightarrow> j < rank st \<Longrightarrow>
           cell mk (i, j) = kernel st (col_vec (data st) (selectedPoints ! i))
                                      (col_vec (data st) (selectedPoints ! j))"
    and "\<And>i j. i < n_cols (data st) \<Longrightarrow> j < rank st \<Longrightarrow>
           cell sk (i, j) = kernel st (col_vec (data st) i)
                                      (col_vec (data st) (selectedPoints ! j))"
proof -
  let ?rhs1 = "\<lambda>i j. bind_res (idx_at selectedPoints i) (\<lambda>p.
                  bind_res (col (data st) p) (\<lambda>a.
                  bind_res (idx_at selectedPoints j) (\<lambda>q.
                  bind_res (col (data st) q) (\<lambda>b.
                  Inr (kernel st a b)))))"
  let ?rhs2 = "\<lambda>i j. bind_res (col (data st) i) (\<lambda>a.
                  bind_res (idx_at selectedPoints j) (\<lambda>q.
                  bind_res (col (data st) q) (\<lambda>b.
                  Inr (kernel st a b))))"
  from assms have m: "for_cells (rank st) (rank st) ?rhs1 miniKernel = Inr mk"
    and s: "for_cells (n_cols (data st)) (rank st) ?rhs2 semiKernel = Inr sk"
    by (auto simp: GetKernelMatrix_indices_def bind_res_eq_Inr)
  note M = for_cells_Inr [OF m] and S = for_cells_Inr [OF s]
  show "n_rows mk = n_rows miniKernel" "n_cols mk = n_cols miniKernel"
    "n_rows sk = n_rows semiKernel" "n_cols sk = n_cols semiKernel"
    by (rule M S)+
  show "cell mk (i, j) = kernel st (col_vec (data st) (selectedPoints ! i))
                                      (col_vec (data st) (selectedPoints ! j))"
    if "i < rank st" "j < rank st" for i j
    using M(3) [OF that] by (auto simp: bind_res_eq_Inr col_eq_Inr idx_at_eq_Inr)
  show "cell sk (i, j) = kernel st (col_vec (data st) i) (col_vec (data st) (selectedPoints ! j))"
    if "i < n_cols (data st)" "j < rank st" for i j
    using S(3) [OF that] by (auto simp: bind_res_eq_Inr col_eq_Inr idx_at_eq_Inr)
qed

lemma GetKernelMatrix_dims:
  assumes "GetKernelMatrix st selected miniKernel semiKernel = Inr (mk, sk)"
  shows "n_rows mk = n_rows miniKernel" and "n_cols mk = n_cols miniKernel"
    and "n_rows sk = n_rows semiKernel" and "n_cols sk = n_cols semiKernel"
  using assms GetKernelMatrix_points_Inr(1-4) GetKernelMatrix_indices_Inr(1-4)
  by (cases selected; simp; blast)+

text \<open>
  With blocks of the dimensions that \<^verbatim>\<open>Apply\<close> allocates and \<open>rank\<close> landmarks to
  read, every access is in bounds and both overloads return.
\<close>

lemma GetKernelMatrix_points_total:
  assumes "rank st \<le> n_cols selectedData"
    and "n_rows miniKernel = rank st" and "n_cols miniKernel = rank st"
    and "n_rows semiKernel = n_cols (data st)" and "n_cols semiKernel = rank st"
  shows "\<exists>mk sk. GetKernelMatrix_points st selectedData miniKernel semiKernel = Inr (mk, sk)"
proof -
  let ?rhs1 = "\<lambda>i j. bind_res (col selectedData i) (\<lambda>a.
                  bind_res (col selectedData j) (\<lambda>b. Inr (kernel st a b)))"
  let ?rhs2 = "\<lambda>i j. bind_res (col (data st) i) (\<lambda>a.
                  bind_res (col selectedData j) (\<lambda>b. Inr (kernel st a b)))"
  have "\<exists>mk. for_cells (rank st) (rank st) ?rhs1 miniKernel = Inr mk"
    using assms by (intro for_cells_total) (simp_all add: col_def)
  then obtain mk where mk: "for_cells (rank st) (rank st) ?rhs1 miniKernel = Inr mk" ..
  have "\<exists>sk. for_cells (n_cols (data st)) (rank st) ?rhs2 semiKernel = Inr sk"
    using assms by (intro for_cells_total) (simp_all add: col_def)
  then obtain sk where sk: "for_cells (n_cols (data st)) (rank st) ?rhs2 semiKernel = Inr sk" ..
  from mk sk show ?thesis
    by (simp add: GetKernelMatrix_points_def)
qed

lemma GetKernelMatrix_indices_total:
  assumes "rank st \<le> length selectedPoints"
    and "\<And>k. k < rank st \<Longrightarrow> selectedPoints ! k < n_cols (data st)"
    and "n_rows miniKernel = rank st" and "n_cols miniKernel = rank st"
    and "n_rows semiKernel = n_cols (data st)" and "n_cols semiKernel = rank st"
  shows "\<exists>mk sk. GetKernelMatrix_indices st selectedPoints miniKernel semiKernel = Inr (mk, sk)"
proof -
  let ?rhs1 = "\<lambda>i j. bind_res (idx_at selectedPoints i) (\<lambda>p.
                  bind_res (col (data st) p) (\<lambda>a.
                  bind_res (idx_at selectedPoints j) (\<lambda>q.
                  bind_res (col (data st) q) (\<lambda>b.
                  Inr (kernel st a b)))))"
  let ?rhs2 = "\<lambda>i j. bind_res (col (data st) i) (\<lambda>a.
                  bind_res (idx_at selectedPoints j) (\<lambda>q.
                  bind_res (col (data st) q) (\<lambda>b.
                  Inr (kernel st a b))))"
  have "\<exists>mk. for_cells (rank st) (rank st) ?rhs1 miniKernel = Inr mk"
    using assms by (intro for_cells_total) (simp_all add: idx_at_def col_def)
  then obtain mk where mk: "for_cells (rank st) (rank st) ?rhs1 miniKernel = Inr mk" ..
  have "\<exists>sk. for_cells (n_cols (data st)) (rank st) ?rhs2 semiKernel = Inr sk"
    using assms by (intro for_cells_total) (simp_all add: idx_at_def col_def)
  then obtain sk where sk: "for_cells (n_cols (data st)) (rank st) ?rhs2 semiKernel = Inr sk" ..
  from mk sk show ?thesis
    by (simp add: GetKernelMatrix_indices_def)
qed

text \<open>
  Claim C5. Whenever either overload of \<^verbatim>\<open>GetKernelMatrix\<close> returns, the mini-kernel
  holds \<open>kernel.Evaluate(landmark\<^sub>i, landmark\<^sub>j)\<close> at every \<open>(i, j)\<close> with
  \<open>i, j < rank\<close>, and the semi-kernel holds \<open>kernel.Evaluate(data\<^sub>i, landmark\<^sub>j)\<close> at
  every \<open>(i, j)\<close> with \<open>i < n\<close> and \<open>j < rank\<close>, whatever the two matrices held
  before; their dimensions are those they were passed with, so a \<open>rank \<times> rank\<close> and
  an \<open>n \<times> rank\<close> matrix have every entry populated. The landmarks are the columns of
  \<open>selectedData\<close> in the first overload and the columns of the dataset at the selected
  indices in the second. With a \<open>rank \<times> rank\<close> and an \<open>n \<times> rank\<close> matrix and \<open>rank\<close>
  landmarks (for the second overload, \<open>rank\<close> indices of columns of the dataset) both
  overloads do return.
\<close>

theorem GetKernelMatrix_entries:
  "(GetKernelMatrix_points st selectedData miniKernel semiKernel = Inr (mk, sk) \<longrightarrow>
      n_rows mk = n_rows miniKernel \<and> n_cols mk = n_cols miniKernel \<and>
      n_rows sk = n_rows semiKernel \<and> n_cols sk = n_cols semiKernel \<and>
      (\<forall>i<rank st. \<forall>j<rank st.
         cell mk (i, j) = kernel st (col_vec selectedData i) (col_vec selectedData j)) \<and>
      (\<forall>i<n_cols (data st). \<forall>j<rank st.
         cell sk (i, j) = kernel st (col_vec (data st) i) (col_vec selectedData j))) \<and>
   (GetKernelMatrix_indices st selectedPoints miniKernel semiKernel = Inr (mk', sk') \<longrightarrow>
      n_rows mk' = n_rows miniKernel \<and> n_cols mk' = n_cols miniKernel \<and>
      n_rows sk' = n_rows semiKernel \<and> n_cols sk' = n_cols semiKernel \<and>
      (\<forall>i<rank st. \<forall>j<rank st.
         cell mk' (i, j) = kernel st (col_vec (data st) (selectedPoints ! i))
                                     (col_vec (data st) (selectedPoints ! j))) \<and>
      (\<forall>i<n_cols (data st). \<forall>j<rank st.
         cell sk' (i, j) = kernel st (col_vec (data st) i)
                                     (col_vec (data st) (selectedPoints ! j)))) \<and>
   (n_rows miniKernel = rank st \<and> n_cols miniKernel = rank st \<and>
    n_rows semiKernel = n_cols (data st) \<and> n_cols semiKernel = rank st \<longrightarrow>
      (rank st \<le> n_cols selectedData \<longrightarrow>
         (\<exists>a b. GetKernelMatrix_points st selectedData miniKernel semiKernel = Inr (a, b))) \<and>
      (rank st \<le> length selectedPoints \<and>
       (\<forall>k<rank st. selectedPoints ! k < n_cols (data st)) \<longrightarrow>
         (\<exists>a b. GetKernelMatrix_indices st selectedPoints miniKernel semiKernel = Inr (a, b))))"
proof (intro conjI impI; (elim conjE)?)
  assume p: "GetKernelMatrix_points st selectedData miniKernel semiKernel = Inr (mk, sk)"
  note P = GetKernelMatrix_points_Inr [OF p]
  show "n_rows mk = n_rows miniKernel" "n_cols mk = n_cols miniKernel"
    "n_rows sk = n_rows semiKernel" "n_cols sk = n_cols semiKernel"
    by (rule P)+
  show "\<forall>i<rank st. \<forall>j<rank st.
         cell mk (i, j) = kernel st (col_vec selectedData i) (col_vec selectedData j)"
    using P(5) by blast
  show "\<forall>i<n_cols (data st). \<forall>j<rank st.
         cell sk (i, j) = kernel st (col_vec (data st) i) (col_vec selectedData j)"
    using P(6) by blast
next
  assume q: "GetKernelMatrix_indices st selectedPoints miniKernel semiKernel = Inr (mk', sk')"
  note Q = GetKernelMatrix_indices_Inr [OF q]
  show "n_rows mk' = n_rows miniKernel" "n_cols mk' = n_cols miniKernel"
    "n_rows sk' = n_rows semiKernel" "n_cols sk' = n_cols semiKernel"
    by (rule Q)+
  show "\<forall>i<rank st. \<forall>j<rank st.
         cell mk' (i, j) = kernel st (col_vec (data st) (selectedPoints ! i))
                                     (col_vec (data st) (selectedPoints ! j))"
    using Q(5) by blast
  show "\<forall>i<n_cols (data st). \<forall>j<rank st.
         cell sk' (i, j) = kernel st (col_vec (data st) i)
                                     (col_vec (data st) (selectedPoints ! j))"
    using Q(6) by blast
next
  assume "n_rows miniKernel = rank st" "n_cols miniKernel = rank st"
    "n_rows semiKernel = n_cols (data st)" "n_cols semiKernel = rank st"
    "rank st \<le> n_cols selectedData"
  then show "\<exists>a b. GetKernelMatrix_points st selectedData miniKernel semiKernel = Inr (a, b)"
    by (intro GetKernelMatrix_points_total)
next
  assume "n_rows miniKernel = rank st" "n_cols miniKernel = rank st"
    "n_rows semiKernel = n_cols (data st)" "n_cols semiKernel = rank st"
    "rank st \<le> length selectedPoints"
    "\<forall>k<rank st. selectedPoints ! k < n_cols (data st)"
  then show "\<exists>a b. GetKernelMatrix_indices st selectedPoints miniKernel semiKernel = Inr (a, b)"
    by (intro GetKernelMatrix_indices_total) simp_all
qed

text \<open>
  The two overloads on the two points 1 and 2 with rank two: with the landmark points
  3 and 5, and with the selected indices 1 and 0.
\<close>

theorem GetKernelMatrix_entries_witness:
  "run_points = Inr (fst (projr run_points), snd (projr run_points)) \<and>
   run_indices = Inr (fst (projr run_indices), snd (projr run_indices)) \<and>
   (0::nat) < rank two_points \<and> (1::nat) < rank two_points \<and>
   (1::nat) < n_cols (data two_points) \<and>
   n_rows (uninit_mat 2 2 junk_nan) = rank two_points \<and>
   n_cols (uninit_mat 2 2 junk_nan) = rank two_points \<and>
   n_rows (uninit_mat 2 2 junk_seven) = n_cols (data two_points) \<and>
   n_cols (uninit_mat 2 2 junk_seven) = rank two_points \<and>
   rank two_points \<le> n_cols (mat_of_rows [[Fin 3, Fin 5]]) \<and>
   (\<exists>a b. GetKernelMatrix_points two_points (mat_of_rows [[Fin 3, Fin 5]])
            (uninit_mat 2 2 junk_nan) (uninit_mat 2 2 junk_seven) = Inr (a, b)) \<and>
   cell (fst (projr run_points)) (0, 1) = Fin 15 \<and>
   cell (snd (projr run_points)) (1, 0) = Fin 6 \<and>
   cell (fst (projr run_indices)) (0, 1) = Fin 2 \<and>
   cell (snd (projr run_indices)) (1, 0) = Fin 4"
proof -
  let ?sd = "mat_of_rows [[Fin 3, Fin 5]]"
  have r: "(0::nat) < rank two_points" "(1::nat) < rank two_points"
    "(1::nat) < n_cols (data two_points)"
    by (simp_all add: two_points_def caller_def data_def mat_of_rows_def)
  have p: "GetKernelMatrix_points two_points ?sd (uninit_mat 2 2 junk_nan)
             (uninit_mat 2 2 junk_seven) = Inr (fst (projr run_points), snd (projr run_points))"
    using run_points_Inr by (simp add: run_points_def)
  have q: "GetKernelMatrix_indices two_points [1, 0] (uninit_mat 2 2 junk_nan)
             (uninit_mat 2 2 junk_seven) = Inr (fst (projr run_indices), snd (projr run_indices))"
    using run_indices_Inr by (simp add: run_indices_def)
  note T = GetKernelMatrix_entries [of two_points ?sd "uninit_mat 2 2 junk_nan"
      "uninit_mat 2 2 junk_seven" "fst (projr run_points)" "snd (projr run_points)"
      "[1, 0]" "fst (projr run_indices)" "snd (projr run_indices)"]
  from T p r have "cell (fst (projr run_points)) (0, 1) =
      kernel two_points (col_vec ?sd 0) (col_vec ?sd 1)"
    by blast
  then have c1: "cell (fst (projr run_points)) (0, 1) = Fin 15"
    by (simp add: two_points_def caller_def data_def lin_kernel_def col_vec_def mat_of_rows_def)
  from T p r have "cell (snd (projr run_points)) (1, 0) =
      kernel two_points (col_vec (data two_points) 1) (col_vec ?sd 0)"
    by blast
  then have c2: "cell (snd (projr run_points)) (1, 0) = Fin 6"
    by (simp add: two_points_def caller_def data_def lin_kernel_def col_vec_def mat_of_rows_def)
  from T q r have "cell (fst (projr run_indices)) (0, 1) =
      kernel two_points (col_vec (data two_points) ([1, 0] ! 0))
        (col_vec (data two_points) ([1, 0] ! 1))"
    by blast
  then have c3: "cell (fst (projr run_indices)) (0, 1) = Fin 2"
    by (simp add: two_points_def caller_def data_def lin_kernel_def col_vec_def mat_of_rows_def)
  from T q r have "cell (snd (projr run_indices)) (1, 0) =
      kernel two_points (col_vec (data two_points) 1)
        (col_vec (data two_points) ([1, 0] ! 0))"
    by blast
  then have c4: "cell (snd (projr run_indices)) (1, 0) = Fin 4"
    by (simp add: two_points_def caller_def data_def lin_kernel_def col_vec_def mat_of_rows_def)
  have shape: "n_rows (uninit_mat 2 2 junk_nan) = rank two_points"
    "n_cols (uninit_mat 2 2 junk_nan) = rank two_points"
    "n_rows (uninit_mat 2 2 junk_seven) = n_cols (data two_points)"
    "n_cols (uninit_mat 2 2 junk_seven) = rank two_points"
    "rank two_points \<le> n_cols ?sd"
    by (simp_all add: two_points_def caller_def data_def uninit_mat_def mat_of_rows_def)
  from T shape
  have ex: "\<exists>a b. GetKernelMatrix_points two_points ?sd
            (uninit_mat 2 2 junk_nan) (uninit_mat 2 2 junk_seven) = Inr (a, b)"
    by blast
  from run_points_Inr run_indices_Inr r shape ex c1 c2 c3 c4 show ?thesis by blast
qed

text \<open>
  Claim C8. For a kernel whose \<^verbatim>\<open>Evaluate\<close> is symmetric, the mini-kernel that either
  overload of \<^verbatim>\<open>GetKernelMatrix\<close> produces is symmetric: entry \<open>(i, j)\<close> equals entry
  \<open>(j, i)\<close> for all \<open>i, j < rank\<close>.
\<close>

theorem MiniKernel_symmetric:
  assumes "\<forall>a b. kernel st a b = kernel st b a"
  shows "(GetKernelMatrix_points st selectedData miniKernel semiKernel = Inr (mk, sk) \<longrightarrow>
            (\<forall>i<rank st. \<forall>j<rank st. cell mk (i, j) = cell mk (j, i))) \<and>
         (GetKernelMatrix_indices st selectedPoints miniKernel semiKernel = Inr (mk', sk') \<longrightarrow>
            (\<forall>i<rank st. \<forall>j<rank st. cell mk' (i, j) = cell mk' (j, i)))"
proof (intro conjI impI allI)
  fix i j
  assume p: "GetKernelMatrix_points st selectedData miniKernel semiKernel = Inr (mk, sk)"
    and "i < rank st" "j < rank st"
  then show "cell mk (i, j) = cell mk (j, i)"
    using GetKernelMatrix_points_Inr(5) [OF p] assms by simp
next
  fix i j
  assume q: "GetKernelMatrix_indices st selectedPoints miniKernel semiKernel = Inr (mk', sk')"
    and "i < rank st" "j < rank st"
  then show "cell mk' (i, j) = cell mk' (j, i)"
    using GetKernelMatrix_indices_Inr(5) [OF q] assms by simp
qed

text \<open>The linear kernel is symmetric; the two runs above give symmetric mini-kernels.\<close>

theorem MiniKernel_symmetric_witness:
  "(\<forall>a b. kernel two_points a b = kernel two_points b a) \<and>
   run_points = Inr (fst (projr run_points), snd (projr run_points)) \<and>
   run_indices = Inr (fst (projr run_indices), snd (projr run_indices)) \<and>
   (0::nat) < rank two_points \<and> (1::nat) < rank two_points \<and>
   cell (fst (projr run_points)) (0, 1) = cell (fst (projr run_points)) (1, 0) \<and>
   cell (fst (projr run_indices)) (0, 1) = cell (fst (projr run_indices)) (1, 0)"
proof -
  let ?sd = "mat_of_rows [[Fin 3, Fin 5]]"
  have sym: "\<forall>a b. kernel two_points a b = kernel two_points b a"
    using lin_kernel_commute by (simp add: two_points_def caller_def)
  have r: "(0::nat) < rank two_points" "(1::nat) < rank two_points"
    by (simp_all add: two_points_def caller_def)
  have p: "GetKernelMatrix_points two_points ?sd (uninit_mat 2 2 junk_nan)
             (uninit_mat 2 2 junk_seven) = Inr (fst (projr run_points), snd (projr run_points))"
    using run_points_Inr by (simp add: run_points_def)
  have q: "GetKernelMatrix_indices two_points [1, 0] (uninit_mat 2 2 junk_nan)
             (uninit_mat 2 2 junk_seven) = Inr (fst (projr run_indices), snd (projr run_indices))"
    using run_indices_Inr by (simp add: run_indices_def)
  note T = MiniKernel_symmetric [OF sym, of ?sd "uninit_mat 2 2 junk_nan"
      "uninit_mat 2 2 junk_seven" "fst (projr run_points)" "snd (projr run_points)"
      "[1, 0]" "fst (projr run_indices)" "snd (projr run_indices)"]
  from T p r have c1: "cell (fst (projr run_points)) (0, 1) = cell (fst (projr run_points)) (1, 0)"
    by blast
  from T q r
  have c2: "cell (fst (projr run_indices)) (0, 1) = cell (fst (projr run_indices)) (1, 0)"
    by blast
  from sym run_points_Inr run_indices_Inr r c1 c2 show ?thesis by blast
qed

text \<open>A loop nest reads its right-hand side at the cells it assigns and nowhere else.\<close>

lemma for_each_cong:
  "(\<And>x s. x \<in> set xs \<Longrightarrow> body x s = body' x s) \<Longrightarrow> for_each xs body s = for_each xs body' s"
proof (induction xs arbitrary: s)
  case Nil
  then show ?case by simp
next
  case (Cons x xs)
  have "for_each xs body t = for_each xs body' t" for t
    using Cons.prems by (intro Cons.IH) simp
  then have "for_each xs body = for_each xs body'" by (rule ext)
  moreover have "body x s = body' x s" using Cons.prems by simp
  ultimately show ?case by simp
qed

lemma for_cells_cong:
  assumes "\<And>i j. i < r \<Longrightarrow> j < c \<Longrightarrow> rhs i j = rhs' i j"
  shows "for_cells r c rhs M = for_cells r c rhs' M"
  unfolding for_cells_def
proof (rule for_each_cong)
  fix i A
  assume "i \<in> set [0..<r]"
  then have i: "i < r" by simp
  show "for_each [0..<c] (\<lambda>j M. bind_res (rhs i j) (set_at M i j)) A =
        for_each [0..<c] (\<lambda>j M. bind_res (rhs' i j) (set_at M i j)) A"
    by (rule for_each_cong) (simp add: assms [OF i])
qed

lemma GetKernelMatrix_indices_take:
  "GetKernelMatrix_indices st (take (rank st) selectedPoints) miniKernel semiKernel =
   GetKernelMatrix_indices st selectedPoints miniKernel semiKernel"
proof -
  have idx: "idx_at (take (rank st) selectedPoints) k = idx_at selectedPoints k"
    if "k < rank st" for k
    using that by (simp add: idx_at_def)
  have m: "for_cells (rank st) (rank st)
       (\<lambda>i j. bind_res (idx_at (take (rank st) selectedPoints) i) (\<lambda>p.
               bind_res (col (data st) p) (\<lambda>a.
               bind_res (idx_at (take (rank st) selectedPoints) j) (\<lambda>q.
               bind_res (col (data st) q) (\<lambda>b.
               Inr (kernel st a b)))))) M =
     for_cells (rank st) (rank st)
       (\<lambda>i j. bind_res (idx_at selectedPoints i) (\<lambda>p.
               bind_res (col (data st) p) (\<lambda>a.
               bind_res (idx_at selectedPoints j) (\<lambda>q.
               bind_res (col (data st) q) (\<lambda>b.
               Inr (kernel st a b)))))) M" for M
    by (rule for_cells_cong) (simp add: idx)
  have s: "for_cells (n_cols (data st)) (rank st)
       (\<lambda>i j. bind_res (col (data st) i) (\<lambda>a.
               bind_res (idx_at (take (rank st) selectedPoints) j) (\<lambda>q.
               bind_res (col (data st) q) (\<lambda>b.
               Inr (kernel st a b))))) M =
     for_cells (n_cols (data st)) (rank st)
       (\<lambda>i j. bind_res (col (data st) i) (\<lambda>a.
               bind_res (idx_at selectedPoints j) (\<lambda>q.
               bind_res (col (data st) q) (\<lambda>b.
               Inr (kernel st a b))))) M" for M
    by (rule for_cells_cong) (simp add: idx)
  show ?thesis
    by (simp add: GetKernelMatrix_indices_def m s)
qed

lemma run_beyond_Inr: "run_beyond = Inr (fst (projr run_beyond), snd (projr run_beyond))"
  by (simp add: run_beyond_def eval_two_axes)

lemma run_beyond_mini: "rows_of (fst (projr run_beyond)) = [[Fin 4]]"
  by (simp add: run_beyond_def eval_two_axes)

lemma run_beyond_semi: "rows_of (snd (projr run_beyond)) = [[Fin 4], [Fin 0]]"
  by (simp add: run_beyond_def eval_two_axes)

text \<open>
  Claim C10, as stated, fails. For two points and rank one the selected indices 0 and
  5 do not meet the precondition, 5 being no column of the dataset, and the blocks
  have the shapes \<open>1 \<times> 1\<close> and \<open>2 \<times> 1\<close>; yet no access is out of bounds and the function
  returns the two blocks: the second selected index is never read.
\<close>

theorem GetKernelMatrix_indices_unread_counterexample:
  "rank (two_axes 1) = 1 \<and> n_cols (data (two_axes 1)) = 2 \<and>
   rank (two_axes 1) \<le> length [0::nat, 5] \<and>
   n_cols (data (two_axes 1)) \<le> [0::nat, 5] ! 1 \<and>
   n_rows (uninit_mat 1 1 junk_nan) = rank (two_axes 1) \<and>
   n_cols (uninit_mat 1 1 junk_nan) = rank (two_axes 1) \<and>
   n_rows (uninit_mat 2 1 junk_seven) = n_cols (data (two_axes 1)) \<and>
   n_cols (uninit_mat 2 1 junk_seven) = rank (two_axes 1) \<and>
   GetKernelMatrix_indices (two_axes 1) [0, 5]
     (uninit_mat 1 1 junk_nan) (uninit_mat 2 1 junk_seven) =
       Inr (fst (projr run_beyond), snd (projr run_beyond)) \<and>
   rows_of (fst (projr run_beyond)) = [[Fin 4]] \<and>
   rows_of (snd (projr run_beyond)) = [[Fin 4], [Fin 0]]"
proof -
  have "rank (two_axes 1) = 1" "n_cols (data (two_axes 1)) = 2"
    "rank (two_axes 1) \<le> length [0::nat, 5]"
    "n_cols (data (two_axes 1)) \<le> [0::nat, 5] ! 1"
    "n_rows (uninit_mat 1 1 junk_nan) = rank (two_axes 1)"
    "n_cols (uninit_mat 1 1 junk_nan) = rank (two_axes 1)"
    "n_rows (uninit_mat 2 1 junk_seven) = n_cols (data (two_axes 1))"
    "n_cols (uninit_mat 2 1 junk_seven) = rank (two_axes 1)"
    by (simp_all add: two_axes_def caller_def data_def uninit_mat_def mat_of_rows_def)
  moreover have "GetKernelMatrix_indices (two_axes 1) [0, 5]
     (uninit_mat 1 1 junk_nan) (uninit_mat 2 1 junk_seven) =
       Inr (fst (projr run_beyond), snd (projr run_beyond))"
    using run_beyond_Inr by (simp add: run_beyond_def)
  ultimately show ?thesis
    using run_beyond_mini run_beyond_semi by blast
qed

text \<open>
  Claim C10, amended. The index-based \<^verbatim>\<open>GetKernelMatrix\<close> checks nothing itself; the
  only checks are those of the matrix and vector accesses it makes. When
  \<open>selectedPoints\<close> has at least \<open>rank\<close> entries, \<open>miniKernel\<close> is \<open>rank \<times> rank\<close> and
  \<open>semiKernel\<close> is \<open>n \<times> rank\<close>, then: if each of the first \<open>rank\<close> selected indices is
  less than the number of columns of the dataset, every access is in bounds and the
  function returns; and if one of the first \<open>rank\<close> selected indices is not, the
  function runs into an out-of-bounds column access. The entries of \<open>selectedPoints\<close>
  after the first \<open>rank\<close> are never read: the function does the same without them.
\<close>

theorem GetKernelMatrix_indices_bounds:
  assumes "rank st \<le> length selectedPoints"
    and "n_rows miniKernel = rank st" and "n_cols miniKernel = rank st"
    and "n_rows semiKernel = n_cols (data st)" and "n_cols semiKernel = rank st"
  shows "((\<forall>k<rank st. selectedPoints ! k < n_cols (data st)) \<longrightarrow>
            (\<exists>mk sk. GetKernelMatrix_indices st selectedPoints miniKernel semiKernel = Inr (mk, sk))) \<and>
         ((\<exists>k<rank st. n_cols (data st) \<le> selectedPoints ! k) \<longrightarrow>
            GetKernelMatrix_indices st selectedPoints miniKernel semiKernel = Inl ColOutOfBounds) \<and>
         GetKernelMatrix_indices st selectedPoints miniKernel semiKernel =
           GetKernelMatrix_indices st (take (rank st) selectedPoints) miniKernel semiKernel"
proof (intro conjI impI)
  let ?rhs1 = "\<lambda>i j. bind_res (idx_at selectedPoints i) (\<lambda>p.
                  bind_res (col (data st) p) (\<lambda>a.
                  bind_res (idx_at selectedPoints j) (\<lambda>q.
                  bind_res (col (data st) q) (\<lambda>b.
                  Inr (kernel st a b)))))"
  {
    assume ok: "\<forall>k<rank st. selectedPoints ! k < n_cols (data st)"
    have sel: "selectedPoints ! k < n_cols (data st)" if "k < rank st" for k
      using ok that by simp
    from assms(1) sel assms(2-5)
    show "\<exists>mk sk. GetKernelMatrix_indices st selectedPoints miniKernel semiKernel = Inr (mk, sk)"
      by (rule GetKernelMatrix_indices_total)
  }
  {
    assume "\<exists>k<rank st. n_cols (data st) \<le> selectedPoints ! k"
    then obtain k where k: "k < rank st" "n_cols (data st) \<le> selectedPoints ! k" by blast
    have "for_cells (rank st) (rank st) ?rhs1 miniKernel = Inl ColOutOfBounds"
    proof (rule for_cells_fails [where ?i0.0 = k and ?j0.0 = k])
      show "rank st \<le> n_rows miniKernel" "rank st \<le> n_cols miniKernel"
        using assms by simp_all
      show "k < rank st" "k < rank st" by (rule k)+
      show "?rhs1 k k = Inl ColOutOfBounds"
        using k assms(1) by (simp add: idx_at_def col_def)
      show "(\<exists>v. ?rhs1 i j = Inr v) \<or> ?rhs1 i j = Inl ColOutOfBounds"
        if "i < rank st" "j < rank st" for i j
        using that assms(1) by (simp add: idx_at_def col_def)
    qed
    then show "GetKernelMatrix_indices st selectedPoints miniKernel semiKernel = Inl ColOutOfBounds"
      by (simp add: GetKernelMatrix_indices_def)
  }
  show "GetKernelMatrix_indices st selectedPoints miniKernel semiKernel =
        GetKernelMatrix_indices st (take (rank st) selectedPoints) miniKernel semiKernel"
    by (simp add: GetKernelMatrix_indices_take)
qed

text \<open>
  On the two points 1 and 2 with rank two: the indices 1 and 0 are in range and the
  function returns; of the indices 1 and 2 the second is not a column of the dataset.
\<close>

theorem GetKernelMatrix_indices_bounds_witness:
  "rank two_points \<le> length [1::nat, 0] \<and> rank two_points \<le> length [1::nat, 2] \<and>
   n_rows (uninit_mat 2 2 junk_nan) = rank two_points \<and>
   n_cols (uninit_mat 2 2 junk_nan) = rank two_points \<and>
   n_rows (uninit_mat 2 2 junk_seven) = n_cols (data two_points) \<and>
   n_cols (uninit_mat 2 2 junk_seven) = rank two_points \<and>
   [1::nat, 0] ! 0 < n_cols (data two_points) \<and> [1::nat, 0] ! 1 < n_cols (data two_points) \<and>
   (\<exists>mk sk. GetKernelMatrix_indices two_points [1, 0] (uninit_mat 2 2 junk_nan)
               (uninit_mat 2 2 junk_seven) = Inr (mk, sk)) \<and>
   (\<exists>k<rank two_points. n_cols (data two_points) \<le> [1::nat, 2] ! k) \<and>
   GetKernelMatrix_indices two_points [1, 2] (uninit_mat 2 2 junk_nan)
     (uninit_mat 2 2 junk_seven) = Inl ColOutOfBounds"
proof -
  have len: "rank two_points \<le> length [1::nat, 0]" "rank two_points \<le> length [1::nat, 2]"
    by (simp_all add: two_points_def caller_def)
  have shape: "n_rows (uninit_mat 2 2 junk_nan) = rank two_points"
    "n_cols (uninit_mat 2 2 junk_nan) = rank two_points"
    "n_rows (uninit_mat 2 2 junk_seven) = n_cols (data two_points)"
    "n_cols (uninit_mat 2 2 junk_seven) = rank two_points"
    by (simp_all add: two_points_def caller_def data_def uninit_mat_def mat_of_rows_def)
  have cols: "[1::nat, 0] ! 0 < n_cols (data two_points)"
    "[1::nat, 0] ! 1 < n_cols (data two_points)"
    by (simp_all add: two_points_def caller_def data_def mat_of_rows_def)
  have r2: "rank two_points = 2"
    by (simp add: two_points_def caller_def)
  have good: "\<forall>k<rank two_points. [1::nat, 0] ! k < n_cols (data two_points)"
  proof (intro allI impI)
    fix k assume "k < rank two_points"
    with r2 have "k = 0 \<or> k = 1" by auto
    with cols show "[1::nat, 0] ! k < n_cols (data two_points)" by auto
  qed
  have "(1::nat) < rank two_points \<and> n_cols (data two_points) \<le> [1::nat, 2] ! 1"
    by (simp add: two_points_def caller_def data_def mat_of_rows_def)
  then have bad: "\<exists>k<rank two_points. n_cols (data two_points) \<le> [1::nat, 2] ! k"
    by blast
  from GetKernelMatrix_indices_bounds [OF len(1) shape] good
  have ok: "\<exists>mk sk. GetKernelMatrix_indices two_points [1, 0] (uninit_mat 2 2 junk_nan)
               (uninit_mat 2 2 junk_seven) = Inr (mk, sk)"
    by blast
  from GetKernelMatrix_indices_bounds [OF len(2) shape] bad
  have err: "GetKernelMatrix_indices two_points [1, 2] (uninit_mat 2 2 junk_nan)
     (uninit_mat 2 2 junk_seven) = Inl ColOutOfBounds"
    by blast
  from len shape cols ok bad err show ?thesis by blast
qed

text \<open>
  The run on the three points \<open>e\<^sub>1, 4 e\<^sub>2, 2 e\<^sub>3\<close> with the linear kernel, rank three
  and the Ordered policy. Both blocks are \<open>diag(1, 16, 4)\<close>, and \<open>perm_svd\<close> returns a
  singular value decomposition of that matrix.
\<close>

lemma upt3: "[0..<3] = [0, 1, 2]"
  by (simp add: upt_rec)

lemma sqrt16: "sqrt 16 = 4"
  using real_sqrt_abs [of 4] by simp

lemmas eval_three =
  eval_model three_points_def blocks3_def perm_svd_def shift3_def trans_mat_def
  Reconstruct_spec_def upt3 sqrt16

lemma three_points_selected:
  "OrderedSelection (data three_points) (rank three_points) = Inr (Indices [0, 1, 2])"
  by (simp add: eval_three)

lemma three_points_blocks:
  "GetKernelMatrix three_points (Indices [0, 1, 2])
     (uninit_mat 3 3 junk_nan) (uninit_mat 3 3 junk_nan) = Inr blocks3"
  by (simp add: eval_three)

lemma three_points_mini:
  "rows_of (fst blocks3) =
     [[Fin 1, Fin 0, Fin 0], [Fin 0, Fin 16, Fin 0], [Fin 0, Fin 0, Fin 4]]"
  by (simp add: eval_three)

lemma three_points_semi:
  "rows_of (snd blocks3) =
     [[Fin 1, Fin 0, Fin 0], [Fin 0, Fin 16, Fin 0], [Fin 0, Fin 0, Fin 4]]"
  by (simp add: eval_three)

lemma perm_svd_decomposes:
  "rows_of (times_mat (times_mat shift3 (diagmat [Fin 16, Fin 4, Fin 1])) (trans_mat shift3)) =
     [[Fin 1, Fin 0, Fin 0], [Fin 0, Fin 16, Fin 0], [Fin 0, Fin 0, Fin 4]]"
  by (simp add: eval_three)

lemma shift3_orthonormal:
  "rows_of (times_mat (trans_mat shift3) shift3) =
     [[Fin 1, Fin 0, Fin 0], [Fin 0, Fin 1, Fin 0], [Fin 0, Fin 0, Fin 1]]"
  by (simp add: eval_three)

lemma three_points_success:
  "fst (Apply room64 perm_svd OrderedSelection junk_nan junk_nan 1 three_points) = None"
  by (simp add: eval_three)

lemma three_points_output:
  "rows_of (mats (snd (Apply room64 perm_svd OrderedSelection junk_nan junk_nan 1 three_points)) 1) =
     [[Fin 0, Fin 1, Fin 0], [Fin 0, Fin 0, Fin 4], [Fin 2, Fin 0, Fin 0]]"
  by (simp add: eval_three)

lemma three_points_spec:
  "rows_of (Reconstruct_spec (snd blocks3) shift3 [Fin 16, Fin 4, Fin 1] shift3) =
     [[Fin 1, Fin 0, Fin 0], [Fin 0, Fin 4, Fin 0], [Fin 0, Fin 0, Fin 2]]"
  by (simp add: eval_three)

text \<open>
  Claim C1, as stated, fails. On the three points the mini-kernel is
  \<open>diag(1, 16, 4)\<close>, its decomposition is \<open>U = V = shift3\<close>, \<open>s = (16, 4, 1)\<close> (the
  product \<open>U \<cdot> diag(s) \<cdot> V\<^sup>t\<close> is the mini-kernel and \<open>U\<^sup>t \<cdot> U\<close> is the identity), and
  the factor that \<^verbatim>\<open>Apply\<close> writes is not \<open>SemiKernel \<cdot> U \<cdot> N \<cdot> V\<^sup>t\<close>.
\<close>

theorem Apply_transpose_counterexample:
  "OrderedSelection (data three_points) (rank three_points) = Inr (Indices [0, 1, 2]) \<and>
   GetKernelMatrix three_points (Indices [0, 1, 2])
     (uninit_mat 3 3 junk_nan) (uninit_mat 3 3 junk_nan) = Inr blocks3 \<and>
   rows_of (fst blocks3) =
     [[Fin 1, Fin 0, Fin 0], [Fin 0, Fin 16, Fin 0], [Fin 0, Fin 0, Fin 4]] \<and>
   rows_of (snd blocks3) =
     [[Fin 1, Fin 0, Fin 0], [Fin 0, Fin 16, Fin 0], [Fin 0, Fin 0, Fin 4]] \<and>
   perm_svd (fst blocks3) = (shift3, [Fin 16, Fin 4, Fin 1], shift3) \<and>
   rows_of (times_mat (times_mat shift3 (diagmat [Fin 16, Fin 4, Fin 1])) (trans_mat shift3)) =
     rows_of (fst blocks3) \<and>
   rows_of (times_mat (trans_mat shift3) shift3) =
     [[Fin 1, Fin 0, Fin 0], [Fin 0, Fin 1, Fin 0], [Fin 0, Fin 0, Fin 1]] \<and>
   fst (Apply room64 perm_svd OrderedSelection junk_nan junk_nan 1 three_points) = None \<and>
   rows_of (mats (snd (Apply room64 perm_svd OrderedSelection junk_nan junk_nan 1 three_points)) 1) =
     [[Fin 0, Fin 1, Fin 0], [Fin 0, Fin 0, Fin 4], [Fin 2, Fin 0, Fin 0]] \<and>
   rows_of (Reconstruct_spec (snd blocks3) shift3 [Fin 16, Fin 4, Fin 1] shift3) =
     [[Fin 1, Fin 0, Fin 0], [Fin 0, Fin 4, Fin 0], [Fin 0, Fin 0, Fin 2]] \<and>
   mats (snd (Apply room64 perm_svd OrderedSelection junk_nan junk_nan 1 three_points)) 1 \<noteq>
     Reconstruct_spec (snd blocks3) shift3 [Fin 16, Fin 4, Fin 1] shift3"
proof -
  have svd: "perm_svd (fst blocks3) = (shift3, [Fin 16, Fin 4, Fin 1], shift3)"
    by (simp add: perm_svd_def)
  have dec: "rows_of (times_mat (times_mat shift3 (diagmat [Fin 16, Fin 4, Fin 1]))
                (trans_mat shift3)) = rows_of (fst blocks3)"
    using perm_svd_decomposes three_points_mini by simp
  have "rows_of (mats (snd (Apply room64 perm_svd OrderedSelection junk_nan junk_nan 1 three_points)) 1)
      \<noteq> rows_of (Reconstruct_spec (snd blocks3) shift3 [Fin 16, Fin 4, Fin 1] shift3)"
    unfolding three_points_output three_points_spec by simp
  then have ne: "mats (snd (Apply room64 perm_svd OrderedSelection junk_nan junk_nan 1 three_points)) 1
      \<noteq> Reconstruct_spec (snd blocks3) shift3 [Fin 16, Fin 4, Fin 1] shift3"
    by auto
  from three_points_selected three_points_blocks three_points_mini three_points_semi svd dec
    shift3_orthonormal three_points_success three_points_output three_points_spec ne
  show ?thesis by blast
qed

text \<open>
  Claim C1, amended. For every call to \<^verbatim>\<open>Apply\<close> that ends normally, the output factor
  equals \<open>SemiKernel \<cdot> U \<cdot> N \<cdot> V\<close>, where the two blocks are those that
  \<^verbatim>\<open>GetKernelMatrix\<close> built for the selected landmarks, \<open>(U, s, V)\<close> is what the singular
  value decomposition returned for the mini-kernel and \<open>N = diag(1/sqrt(s\<^sub>i))\<close>: the
  product is taken with \<open>V\<close> itself, not with its transpose.
\<close>

theorem Apply_output_product:
  assumes "fst (Apply room svd Select g1 g2 output st) = None"
  shows "\<exists>selected miniKernel semiKernel U s V.
     Select (data st) (rank st) = Inr selected \<and>
     GetKernelMatrix st selected (uninit_mat (rank st) (rank st) g1)
       (uninit_mat (n_cols (data st)) (rank st) g2) = Inr (miniKernel, semiKernel) \<and>
     svd miniKernel = (U, s, V) \<and>
     mats (snd (Apply room svd Select g1 g2 output st)) output =
       times_mat (times_mat (times_mat semiKernel U) (normalization_of s)) V \<and>
     n_rows (normalization_of s) = length s \<and> n_cols (normalization_of s) = length s \<and>
     (\<forall>i<length s. \<forall>j<length s. cell (normalization_of s) (i, j) =
        (if i = j then one_over (dsqrt (s ! i)) else Fin 0))"
proof -
  from assms
  have "Apply_factor room svd Select g1 g2 st = Inr (mats (snd (Apply room svd Select g1 g2 output st)) output)"
    by (simp add: Apply_success)
  then obtain selected miniKernel semiKernel U s V where
    "Select (data st) (rank st) = Inr selected"
    "GetKernelMatrix st selected (uninit_mat (rank st) (rank st) g1)
       (uninit_mat (n_cols (data st)) (rank st) g2) = Inr (miniKernel, semiKernel)"
    "svd miniKernel = (U, s, V)"
    "mats (snd (Apply room svd Select g1 g2 output st)) output =
       times_mat (times_mat (times_mat semiKernel U) (normalization_of s)) V"
    by (rule Apply_factor_Inr)
  moreover have "n_rows (normalization_of s) = length s \<and>
     n_cols (normalization_of s) = length s \<and>
     (\<forall>i<length s. \<forall>j<length s. cell (normalization_of s) (i, j) =
        (if i = j then one_over (dsqrt (s ! i)) else Fin 0))"
    by (simp add: normalization_of_def diagmat_def)
  ultimately show ?thesis by blast
qed

text \<open>The same run on the three points, where the product with \<open>V\<close> is the factor.\<close>

theorem Apply_output_product_witness:
  "fst (Apply room64 perm_svd OrderedSelection junk_nan junk_nan 1 three_points) = None \<and>
   (\<exists>selected miniKernel semiKernel U s V.
     OrderedSelection (data three_points) (rank three_points) = Inr selected \<and>
     GetKernelMatrix three_points selected
       (uninit_mat (rank three_points) (rank three_points) junk_nan)
       (uninit_mat (n_cols (data three_points)) (rank three_points) junk_nan) =
         Inr (miniKernel, semiKernel) \<and>
     perm_svd miniKernel = (U, s, V) \<and>
     mats (snd (Apply room64 perm_svd OrderedSelection junk_nan junk_nan 1 three_points)) 1 =
       times_mat (times_mat (times_mat semiKernel U) (normalization_of s)) V \<and>
     n_rows (normalization_of s) = length s \<and> n_cols (normalization_of s) = length s \<and>
     (\<forall>i<length s. \<forall>j<length s. cell (normalization_of s) (i, j) =
        (if i = j then one_over (dsqrt (s ! i)) else Fin 0)))"
  using Apply_output_product [OF three_points_success] three_points_success by blast

text \<open>
  One point and the rank \<open>2\<^sup>3\<^sup>3\<close>, with the Ordered policy, which signals
  \<open>InvalidArgument\<close> for this rank: the first local matrix would have \<open>2\<^sup>6\<^sup>6\<close> entries.
\<close>

lemma huge_rank_bad: "n_cols (data huge_rank) < rank huge_rank"
  by (simp add: huge_rank_def one_point_def caller_def data_def mat_of_rows_def)

lemma huge_rank_no_room: "\<not> room64 (rank huge_rank) (rank huge_rank)"
  by (simp add: huge_rank_def one_point_def caller_def room64_def)

lemma huge_rank_Apply:
  "Apply room64 diag_svd OrderedSelection junk_nan junk_seven 1 huge_rank =
     (Some AllocError, huge_rank)"
  using huge_rank_no_room by (simp add: Apply_def new_mat_def)

text \<open>
  Claim C2, as stated, fails. \<^verbatim>\<open>Apply\<close> constructs its two local matrices, of
  \<open>rank \<times> rank\<close> and \<open>n \<times> rank\<close> entries, before it calls the selection policy. With one
  point and the rank \<open>2\<^sup>3\<^sup>3\<close>, greater than \<open>n\<close>, the first construction fails, and the
  call ends with that error, not with \<open>InvalidArgument\<close>, although the policy signals
  \<open>InvalidArgument\<close> for this rank.
\<close>

theorem Apply_huge_rank_counterexample:
  "n_cols (data huge_rank) < rank huge_rank \<and>
   rejects_bad_rank OrderedSelection \<and>
   OrderedSelection (data huge_rank) (rank huge_rank) = Inl InvalidArgument \<and>
   \<not> room64 (rank huge_rank) (rank huge_rank) \<and>
   Apply room64 diag_svd OrderedSelection junk_nan junk_seven 1 huge_rank =
     (Some AllocError, huge_rank) \<and>
   fst (Apply room64 diag_svd OrderedSelection junk_nan junk_seven 1 huge_rank) \<noteq>
     Some InvalidArgument"
proof -
  have "OrderedSelection (data huge_rank) (rank huge_rank) = Inl InvalidArgument"
    using huge_rank_bad by (simp add: OrderedSelection_def)
  moreover have "fst (Apply room64 diag_svd OrderedSelection junk_nan junk_seven 1 huge_rank) \<noteq>
     Some InvalidArgument"
    unfolding huge_rank_Apply by simp
  ultimately show ?thesis
    using huge_rank_bad rejects_bad_rank_Ordered huge_rank_no_room huge_rank_Apply by blast
qed

text \<open>
  Claim C2, amended. When the selection policy signals \<open>InvalidArgument\<close> for a rank of
  zero and for a rank above the number of points, a call to \<^verbatim>\<open>Apply\<close> with \<open>rank = 0\<close>
  or \<open>rank > n\<close> ends with an error and leaves the output argument, like everything
  else, as it was. The error is \<open>InvalidArgument\<close> when the two local matrices could be
  constructed, and the error of the construction when they could not. \<^verbatim>\<open>Apply\<close> has
  no check of the rank of its own: \<open>InvalidArgument\<close> is the policy's.
\<close>

theorem Apply_rejects_bad_rank:
  assumes "rejects_bad_rank Select"
    and "rank st = 0 \<or> n_cols (data st) < rank st"
  shows "(room (rank st) (rank st) \<and> room (n_cols (data st)) (rank st) \<longrightarrow>
            Apply room svd Select g1 g2 output st = (Some InvalidArgument, st)) \<and>
         (\<not> (room (rank st) (rank st) \<and> room (n_cols (data st)) (rank st)) \<longrightarrow>
            Apply room svd Select g1 g2 output st = (Some AllocError, st))"
proof -
  from assms have "Select (data st) (rank st) = Inl InvalidArgument"
    unfolding rejects_bad_rank_def by blast
  then show ?thesis
    by (auto simp: Apply_def new_mat_def)
qed

text \<open>
  The Ordered policy on two points, with rank three and with rank zero, where the local
  matrices can be constructed; and on one point with the rank \<open>2\<^sup>3\<^sup>3\<close>, where they
  cannot.
\<close>

theorem Apply_rejects_bad_rank_witness:
  "rejects_bad_rank OrderedSelection \<and>
   n_cols (data (two_axes 3)) < rank (two_axes 3) \<and>
   room64 (rank (two_axes 3)) (rank (two_axes 3)) \<and>
   room64 (n_cols (data (two_axes 3))) (rank (two_axes 3)) \<and>
   Apply room64 diag_svd OrderedSelection junk_nan junk_seven 1 (two_axes 3) =
     (Some InvalidArgument, two_axes 3) \<and>
   rank (two_axes 0) = 0 \<and>
   room64 (rank (two_axes 0)) (rank (two_axes 0)) \<and>
   room64 (n_cols (data (two_axes 0))) (rank (two_axes 0)) \<and>
   Apply room64 diag_svd OrderedSelection junk_nan junk_seven 1 (two_axes 0) =
     (Some InvalidArgument, two_axes 0) \<and>
   n_cols (data huge_rank) < rank huge_rank \<and>
   \<not> (room64 (rank huge_rank) (rank huge_rank) \<and>
      room64 (n_cols (data huge_rank)) (rank huge_rank)) \<and>
   Apply room64 diag_svd OrderedSelection junk_nan junk_seven 1 huge_rank =
     (Some AllocError, huge_rank)"
proof -
  have big: "n_cols (data (two_axes 3)) < rank (two_axes 3)"
    "room64 (rank (two_axes 3)) (rank (two_axes 3))"
    "room64 (n_cols (data (two_axes 3))) (rank (two_axes 3))"
    by (simp_all add: two_axes_def caller_def data_def mat_of_rows_def room64_def)
  have zero: "rank (two_axes 0) = 0"
    "room64 (rank (two_axes 0)) (rank (two_axes 0))"
    "room64 (n_cols (data (two_axes 0))) (rank (two_axes 0))"
    by (simp_all add: two_axes_def caller_def data_def mat_of_rows_def room64_def)
  have huge: "\<not> (room64 (rank huge_rank) (rank huge_rank) \<and>
      room64 (n_cols (data huge_rank)) (rank huge_rank))"
    using huge_rank_no_room by simp
  from big zero huge huge_rank_bad rejects_bad_rank_Ordered
    Apply_rejects_bad_rank [OF rejects_bad_rank_Ordered, of "two_axes 3" room64 diag_svd
      junk_nan junk_seven 1]
    Apply_rejects_bad_rank [OF rejects_bad_rank_Ordered, of "two_axes 0" room64 diag_svd
      junk_nan junk_seven 1]
    Apply_rejects_bad_rank [OF rejects_bad_rank_Ordered, of huge_rank room64 diag_svd
      junk_nan junk_seven 1]
  show ?thesis by blast
qed

text \<open>
  The run on the single point 0 with the linear kernel and rank one. The mini-kernel is
  the \<open>1 \<times> 1\<close> zero matrix, whose only singular value is 0.
\<close>

lemmas eval_one_point = eval_model one_point_def blocks1_def diag_svd_def identity_mat_def

lemma one_point_selected:
  "OrderedSelection (data (one_point 0 1)) (rank (one_point 0 1)) = Inr (Indices [0])"
  by (simp add: eval_one_point)

lemma one_point_blocks:
  "GetKernelMatrix (one_point 0 1) (Indices [0])
     (uninit_mat 1 1 junk_nan) (uninit_mat 1 1 junk_nan) = Inr blocks1"
  by (simp add: eval_one_point)

lemma one_point_svd:
  "diag_svd (fst blocks1) = (identity_mat 1, [Fin 0], identity_mat 1)"
  by (simp add: eval_one_point)

lemma one_point_success:
  "fst (Apply room64 diag_svd OrderedSelection junk_nan junk_nan 1 (one_point 0 1)) = None"
  by (simp add: eval_one_point)

lemma one_point_output:
  "rows_of (mats (snd (Apply room64 diag_svd OrderedSelection junk_nan junk_nan 1
                         (one_point 0 1))) 1) = [[NaN]]"
  by (simp add: eval_one_point)

lemma one_point_normalization: "rows_of (normalization_of [Fin 0]) = [[PInf]]"
  by (simp add: eval_one_point)

text \<open>
  Claim C3, as stated, fails. With the singular value 0 the call ends normally, no
  component is dropped (the factor keeps its one column), the normalization entry is
  \<open>1/sqrt(0)\<close>, an infinity, and the factor holds NaN.
\<close>

theorem Apply_zero_singular_value_counterexample:
  "OrderedSelection (data (one_point 0 1)) (rank (one_point 0 1)) = Inr (Indices [0]) \<and>
   GetKernelMatrix (one_point 0 1) (Indices [0])
     (uninit_mat 1 1 junk_nan) (uninit_mat 1 1 junk_nan) = Inr blocks1 \<and>
   diag_svd (fst blocks1) = (identity_mat 1, [Fin 0], identity_mat 1) \<and>
   fst (Apply room64 diag_svd OrderedSelection junk_nan junk_nan 1 (one_point 0 1)) = None \<and>
   rows_of (normalization_of [Fin 0]) = [[PInf]] \<and>
   \<not> is_finite (cell (normalization_of [Fin 0]) (0, 0)) \<and>
   rows_of (mats (snd (Apply room64 diag_svd OrderedSelection junk_nan junk_nan 1
                         (one_point 0 1))) 1) = [[NaN]]"
proof -
  have "\<not> is_finite (cell (normalization_of [Fin 0]) (0, 0))"
    by (simp add: normalization_of_def diagmat_def)
  with one_point_selected one_point_blocks one_point_svd one_point_success
    one_point_normalization one_point_output
  show ?thesis by blast
qed

text \<open>
  Whether a call ends with an error is decided by the dimensions of what the
  decomposition returns, not by the values.
\<close>

lemma bind_res_outcome_cong:
  assumes "\<And>x. (case f x of Inl e \<Rightarrow> Some e | Inr G \<Rightarrow> None) =
               (case g x of Inl e \<Rightarrow> Some e | Inr G \<Rightarrow> None)"
  shows "(case bind_res m f of Inl e \<Rightarrow> Some e | Inr G \<Rightarrow> None) =
         (case bind_res m g of Inl e \<Rightarrow> Some e | Inr G \<Rightarrow> None)"
  by (cases m) (simp_all add: assms)

lemma Apply_factor_shapes:
  assumes "\<forall>X. same_shapes (svd X) (svd' X)"
  shows "(case Apply_factor room svd' Select g1 g2 st of Inl e \<Rightarrow> Some e | Inr G \<Rightarrow> None) =
         (case Apply_factor room svd Select g1 g2 st of Inl e \<Rightarrow> Some e | Inr G \<Rightarrow> None)"
proof -
  have tail: "(case (case svd' mk of (U, s, V) \<Rightarrow>
                 bind_res (mul sk U) (\<lambda>t1. bind_res (mul t1 (normalization_of s)) (\<lambda>t2. mul t2 V)))
               of Inl e \<Rightarrow> Some e | Inr G \<Rightarrow> None) =
              (case (case svd mk of (U, s, V) \<Rightarrow>
                 bind_res (mul sk U) (\<lambda>t1. bind_res (mul t1 (normalization_of s)) (\<lambda>t2. mul t2 V)))
               of Inl e \<Rightarrow> Some e | Inr G \<Rightarrow> None)" for mk sk
  proof -
    obtain U s V where a: "svd mk = (U, s, V)" by (cases "svd mk")
    obtain U' s' V' where b: "svd' mk = (U', s', V')" by (cases "svd' mk")
    from assms have "same_shapes (svd mk) (svd' mk)" by (rule spec)
    with a b have "n_rows U' = n_rows U" "n_cols U' = n_cols U" "length s' = length s"
      "n_rows V' = n_rows V" "n_cols V' = n_cols V"
      by (simp_all add: same_shapes_def same_dims_def)
    with a b show ?thesis
      by (simp add: mul_def)
  qed
  have blocks: "(case (case p of (mk, sk) \<Rightarrow> case svd' mk of (U, s, V) \<Rightarrow>
                 bind_res (mul sk U) (\<lambda>t1. bind_res (mul t1 (normalization_of s)) (\<lambda>t2. mul t2 V)))
               of Inl e \<Rightarrow> Some e | Inr G \<Rightarrow> None) =
              (case (case p of (mk, sk) \<Rightarrow> case svd mk of (U, s, V) \<Rightarrow>
                 bind_res (mul sk U) (\<lambda>t1. bind_res (mul t1 (normalization_of s)) (\<lambda>t2. mul t2 V)))
               of Inl e \<Rightarrow> Some e | Inr G \<Rightarrow> None)" for p
    by (cases p) (simp add: tail)
  show ?thesis
    unfolding Apply_factor_def
    by (intro bind_res_outcome_cong blocks)
qed

text \<open>
  Claim C3, amended. \<^verbatim>\<open>Apply\<close> applies no threshold to the singular values. In every
  call that ends normally, the normalization matrix has one row and one column for
  every singular value \<open>s\<^sub>i\<close> that the decomposition returned, none is dropped, its
  diagonal entry for \<open>s\<^sub>i\<close> is \<open>1/sqrt(s\<^sub>i)\<close> whatever \<open>s\<^sub>i\<close> is, and it enters the factor as
  it is. That entry is finite exactly when \<open>s\<^sub>i\<close> is positive (or an infinity); for
  \<open>s\<^sub>i = 0\<close> it is an infinity and for a negative \<open>s\<^sub>i\<close> it is NaN. No error is
  signalled for any value: a call ends in the same way with any other decomposition
  whose results have the same dimensions.
\<close>

theorem Apply_no_threshold:
  "(fst (Apply room svd Select g1 g2 output st) = None \<longrightarrow>
      (\<exists>selected miniKernel semiKernel U s V.
         Select (data st) (rank st) = Inr selected \<and>
         GetKernelMatrix st selected (uninit_mat (rank st) (rank st) g1)
           (uninit_mat (n_cols (data st)) (rank st) g2) = Inr (miniKernel, semiKernel) \<and>
         svd miniKernel = (U, s, V) \<and>
         n_cols U = length s \<and> n_rows V = length s \<and>
         n_rows (normalization_of s) = length s \<and> n_cols (normalization_of s) = length s \<and>
         mats (snd (Apply room svd Select g1 g2 output st)) output =
           times_mat (times_mat (times_mat semiKernel U) (normalization_of s)) V \<and>
         (\<forall>i<length s.
            cell (normalization_of s) (i, i) = one_over (dsqrt (s ! i)) \<and>
            (is_finite (cell (normalization_of s) (i, i)) \<longleftrightarrow>
               s ! i = PInf \<or> (\<exists>x. 0 < x \<and> s ! i = Fin x)) \<and>
            (s ! i = Fin 0 \<longrightarrow> cell (normalization_of s) (i, i) = PInf) \<and>
            (\<forall>x<0. s ! i = Fin x \<longrightarrow> cell (normalization_of s) (i, i) = NaN)))) \<and>
   ((\<forall>X. same_shapes (svd X) (svd' X)) \<longrightarrow>
      fst (Apply room svd' Select g1 g2 output st) = fst (Apply room svd Select g1 g2 output st))"
proof (intro conjI impI)
  assume "fst (Apply room svd Select g1 g2 output st) = None"
  then have "Apply_factor room svd Select g1 g2 st =
      Inr (mats (snd (Apply room svd Select g1 g2 output st)) output)"
    by (simp add: Apply_success)
  then obtain selected miniKernel semiKernel U s V where f:
    "Select (data st) (rank st) = Inr selected"
    "GetKernelMatrix st selected (uninit_mat (rank st) (rank st) g1)
       (uninit_mat (n_cols (data st)) (rank st) g2) = Inr (miniKernel, semiKernel)"
    "svd miniKernel = (U, s, V)"
    "n_cols U = length s" "length s = n_rows V"
    "mats (snd (Apply room svd Select g1 g2 output st)) output =
       times_mat (times_mat (times_mat semiKernel U) (normalization_of s)) V"
    by (rule Apply_factor_Inr)
  have fin: "is_finite (one_over (dsqrt d)) \<longleftrightarrow> d = PInf \<or> (\<exists>x. 0 < x \<and> d = Fin x)" for d
    by (cases d) auto
  have entries: "\<forall>i<length s.
            cell (normalization_of s) (i, i) = one_over (dsqrt (s ! i)) \<and>
            (is_finite (cell (normalization_of s) (i, i)) \<longleftrightarrow>
               s ! i = PInf \<or> (\<exists>x. 0 < x \<and> s ! i = Fin x)) \<and>
            (s ! i = Fin 0 \<longrightarrow> cell (normalization_of s) (i, i) = PInf) \<and>
            (\<forall>x<0. s ! i = Fin x \<longrightarrow> cell (normalization_of s) (i, i) = NaN)"
    using fin by (auto simp: normalization_of_def diagmat_def)
  have dims: "n_rows (normalization_of s) = length s" "n_cols (normalization_of s) = length s"
    by simp_all
  from f(1-4) f(5) [symmetric] f(6) dims entries
  show "\<exists>selected miniKernel semiKernel U s V.
         Select (data st) (rank st) = Inr selected \<and>
         GetKernelMatrix st selected (uninit_mat (rank st) (rank st) g1)
           (uninit_mat (n_cols (data st)) (rank st) g2) = Inr (miniKernel, semiKernel) \<and>
         svd miniKernel = (U, s, V) \<and>
         n_cols U = length s \<and> n_rows V = length s \<and>
         n_rows (normalization_of s) = length s \<and> n_cols (normalization_of s) = length s \<and>
         mats (snd (Apply room svd Select g1 g2 output st)) output =
           times_mat (times_mat (times_mat semiKernel U) (normalization_of s)) V \<and>
         (\<forall>i<length s.
            cell (normalization_of s) (i, i) = one_over (dsqrt (s ! i)) \<and>
            (is_finite (cell (normalization_of s) (i, i)) \<longleftrightarrow>
               s ! i = PInf \<or> (\<exists>x. 0 < x \<and> s ! i = Fin x)) \<and>
            (s ! i = Fin 0 \<longrightarrow> cell (normalization_of s) (i, i) = PInf) \<and>
            (\<forall>x<0. s ! i = Fin x \<longrightarrow> cell (normalization_of s) (i, i) = NaN))"
    by blast
next
  assume "\<forall>X. same_shapes (svd X) (svd' X)"
  then show "fst (Apply room svd' Select g1 g2 output st) =
             fst (Apply room svd Select g1 g2 output st)"
    by (simp add: Apply_fst Apply_factor_shapes)
qed

text \<open>
  The single point 0 again: the call with the singular value 0 ends normally, as it
  does when the singular value is replaced by one.
\<close>

lemma same_shapes_ones: "\<forall>X. same_shapes (diag_svd X) (ones_svd X)"
  by (simp add: same_shapes_def same_dims_def diag_svd_def ones_svd_def identity_mat_def
      diagmat_def)

theorem Apply_no_threshold_witness:
  "fst (Apply room64 diag_svd OrderedSelection junk_nan junk_nan 1 (one_point 0 1)) = None \<and>
   (\<exists>selected miniKernel semiKernel U s V.
      OrderedSelection (data (one_point 0 1)) (rank (one_point 0 1)) = Inr selected \<and>
      GetKernelMatrix (one_point 0 1) selected
        (uninit_mat (rank (one_point 0 1)) (rank (one_point 0 1)) junk_nan)
        (uninit_mat (n_cols (data (one_point 0 1))) (rank (one_point 0 1)) junk_nan) =
          Inr (miniKernel, semiKernel) \<and>
      diag_svd miniKernel = (U, s, V) \<and>
      n_rows (normalization_of s) = length s \<and>
      mats (snd (Apply room64 diag_svd OrderedSelection junk_nan junk_nan 1 (one_point 0 1))) 1 =
        times_mat (times_mat (times_mat semiKernel U) (normalization_of s)) V) \<and>
   (\<forall>X. same_shapes (diag_svd X) (ones_svd X)) \<and>
   fst (Apply room64 ones_svd OrderedSelection junk_nan junk_nan 1 (one_point 0 1)) = None"
proof -
  note T = Apply_no_threshold [of room64 diag_svd OrderedSelection junk_nan junk_nan 1
      "one_point 0 1" ones_svd]
  from T one_point_success
  have a: "\<exists>selected miniKernel semiKernel U s V.
      OrderedSelection (data (one_point 0 1)) (rank (one_point 0 1)) = Inr selected \<and>
      GetKernelMatrix (one_point 0 1) selected
        (uninit_mat (rank (one_point 0 1)) (rank (one_point 0 1)) junk_nan)
        (uninit_mat (n_cols (data (one_point 0 1))) (rank (one_point 0 1)) junk_nan) =
          Inr (miniKernel, semiKernel) \<and>
      diag_svd miniKernel = (U, s, V) \<and>
      n_rows (normalization_of s) = length s \<and>
      mats (snd (Apply room64 diag_svd OrderedSelection junk_nan junk_nan 1 (one_point 0 1))) 1 =
        times_mat (times_mat (times_mat semiKernel U) (normalization_of s)) V"
    by blast
  from T same_shapes_ones one_point_success
  have b: "fst (Apply room64 ones_svd OrderedSelection junk_nan junk_nan 1 (one_point 0 1)) = None"
    by simp
  from one_point_success a same_shapes_ones b show ?thesis by blast
qed

text \<open>
  Claim C4. For a dataset of \<open>n\<close> points and a rank with \<open>1 \<le> rank \<le> n\<close>, a call to
  \<^verbatim>\<open>Apply\<close> that ends normally has written an output matrix with exactly \<open>n\<close> rows and
  exactly \<open>rank\<close> columns, when the singular value decomposition returns factors of
  the dimensions that Armadillo documents.
\<close>

theorem Apply_output_shape:
  assumes "svd_conforms svd" and "1 \<le> rank st" and "rank st \<le> n_cols (data st)"
    and "fst (Apply room svd Select g1 g2 output st) = None"
  shows "n_rows (mats (snd (Apply room svd Select g1 g2 output st)) output) = n_cols (data st) \<and>
         n_cols (mats (snd (Apply room svd Select g1 g2 output st)) output) = rank st"
proof -
  let ?G = "mats (snd (Apply room svd Select g1 g2 output st)) output"
  from assms(4) have "Apply_factor room svd Select g1 g2 st = Inr ?G"
    by (simp add: Apply_success)
  then obtain selected miniKernel semiKernel U s V where
    gkm: "GetKernelMatrix st selected (uninit_mat (rank st) (rank st) g1)
       (uninit_mat (n_cols (data st)) (rank st) g2) = Inr (miniKernel, semiKernel)"
    and svd: "svd miniKernel = (U, s, V)"
    and fit: "n_cols semiKernel = n_rows U" "n_cols U = length s" "length s = n_rows V"
    and G: "?G = times_mat (times_mat (times_mat semiKernel U) (normalization_of s)) V"
    by (rule Apply_factor_Inr)
  from GetKernelMatrix_dims [OF gkm]
  have dims: "n_cols miniKernel = rank st" "n_rows semiKernel = n_cols (data st)"
    "n_cols semiKernel = rank st"
    by (simp_all add: uninit_mat_def)
  from assms(1)
  have "case svd miniKernel of (U, s, V) \<Rightarrow>
        (n_rows U = n_rows miniKernel \<and> n_cols U = n_rows miniKernel \<and>
         length s = min (n_rows miniKernel) (n_cols miniKernel) \<and>
         n_rows V = n_cols miniKernel \<and> n_cols V = n_cols miniKernel) \<or>
        (n_rows U = 0 \<and> n_cols U = 0 \<and> s = [] \<and> n_rows V = 0 \<and> n_cols V = 0)"
    unfolding svd_conforms_def by (rule spec)
  with svd have "n_cols V = n_cols miniKernel \<or> n_rows U = 0"
    by auto
  with fit dims assms(2) have "n_cols V = rank st" by auto
  with dims G show ?thesis by simp
qed

text \<open>Two points and rank one: the factor is \<open>2 \<times> 1\<close>.\<close>

lemma two_axes_success:
  "fst (Apply room64 diag_svd OrderedSelection junk_nan junk_seven 1 (two_axes 1)) = None"
  by (simp add: eval_two_axes)

theorem Apply_output_shape_witness:
  "svd_conforms diag_svd \<and> 1 \<le> rank (two_axes 1) \<and>
   rank (two_axes 1) \<le> n_cols (data (two_axes 1)) \<and>
   fst (Apply room64 diag_svd OrderedSelection junk_nan junk_seven 1 (two_axes 1)) = None \<and>
   n_rows (mats (snd (Apply room64 diag_svd OrderedSelection junk_nan junk_seven 1 (two_axes 1))) 1) = 2 \<and>
   n_cols (mats (snd (Apply room64 diag_svd OrderedSelection junk_nan junk_seven 1 (two_axes 1))) 1) = 1"
proof -
  have r: "1 \<le> rank (two_axes 1)" "rank (two_axes 1) \<le> n_cols (data (two_axes 1))"
    by (simp_all add: two_axes_def caller_def data_def mat_of_rows_def)
  have v: "n_cols (data (two_axes 1)) = 2" "rank (two_axes 1) = 1"
    by (simp_all add: two_axes_def caller_def data_def mat_of_rows_def)
  from Apply_output_shape [OF svd_conforms_diag_svd r two_axes_success] v
  have "n_rows (mats (snd (Apply room64 diag_svd OrderedSelection junk_nan junk_seven 1 (two_axes 1))) 1) = 2 \<and>
   n_cols (mats (snd (Apply room64 diag_svd OrderedSelection junk_nan junk_seven 1 (two_axes 1))) 1) = 1"
    by simp
  with svd_conforms_diag_svd r two_axes_success show ?thesis by blast
qed

section \<open>What a call depends on and what it changes\<close>

text \<open>
  The loop nests overwrite every cell of the two local matrices before any is read, so
  the blocks do not depend on what the allocated memory held.
\<close>

lemma for_cells_uninit:
  "for_cells r c rhs (uninit_mat r c g) = for_cells r c rhs (uninit_mat r c h)"
proof -
  let ?A = "uninit_mat r c g" and ?B = "uninit_mat r c h"
  have "same_dims ?A ?B" by (simp add: same_dims_def uninit_mat_def)
  then have sim: "rel_sum (=) same_dims (for_cells r c rhs ?A) (for_cells r c rhs ?B)"
    by (rule for_cells_sim)
  show ?thesis
  proof (cases "for_cells r c rhs ?A")
    case (Inl e)
    with sim show ?thesis by (cases "for_cells r c rhs ?B") simp_all
  next
    case (Inr X)
    with sim obtain Y where Y: "for_cells r c rhs ?B = Inr Y"
      by (cases "for_cells r c rhs ?B") simp_all
    note a = for_cells_Inr [OF Inr] and b = for_cells_Inr [OF Y]
    have "cell X p = cell Y p" for p
    proof (cases p)
      case (Pair i j)
      show ?thesis
      proof (cases "i < r \<and> j < c")
        case True
        with a(3) [of i j] b(3) [of i j] Pair show ?thesis by simp
      next
        case False
        with a(4) [of i j] b(4) [of i j] Pair show ?thesis
          by (simp add: uninit_mat_def)
      qed
    qed
    then have "cell X = cell Y" by (rule ext)
    moreover have "n_rows X = n_rows Y" "n_cols X = n_cols Y"
      using a(1,2) b(1,2) by (simp_all add: uninit_mat_def)
    ultimately have "X = Y" by simp
    with Inr Y show ?thesis by simp
  qed
qed

lemma GetKernelMatrix_uninit:
  "GetKernelMatrix st selected (uninit_mat r c g1) (uninit_mat r' c' g2) =
   GetKernelMatrix st selected (uninit_mat r c h1) (uninit_mat r' c' h2)"
  if "r = rank st" "c = rank st" "r' = n_cols (data st)" "c' = rank st"
proof (cases selected)
  case (Indices selectedPoints)
  show ?thesis
    unfolding Indices GetKernelMatrix.simps GetKernelMatrix_indices_def that
    by (simp add: for_cells_uninit [of _ _ _ g1 h1] for_cells_uninit [of _ _ _ g2 h2])
next
  case (Points selectedData)
  show ?thesis
    unfolding Points GetKernelMatrix.simps GetKernelMatrix_points_def that
    by (simp add: for_cells_uninit [of _ _ _ g1 h1] for_cells_uninit [of _ _ _ g2 h2])
qed

lemma GetKernelMatrix_cong:
  "data st' = data st \<Longrightarrow> kernel st' = kernel st \<Longrightarrow> rank st' = rank st \<Longrightarrow>
     GetKernelMatrix st' selected mk sk = GetKernelMatrix st selected mk sk"
  by (cases selected) (simp_all add: GetKernelMatrix_indices_def GetKernelMatrix_points_def)

lemma Apply_factor_indep:
  assumes "data st' = data st" "kernel st' = kernel st" "rank st' = rank st"
  shows "Apply_factor room svd Select h1 h2 st' = Apply_factor room svd Select g1 g2 st"
proof -
  have "GetKernelMatrix st' selected (uninit_mat (rank st) (rank st) h1)
          (uninit_mat (n_cols (data st)) (rank st) h2) =
        GetKernelMatrix st selected (uninit_mat (rank st) (rank st) g1)
          (uninit_mat (n_cols (data st)) (rank st) g2)" for selected
    using GetKernelMatrix_cong [OF assms]
      GetKernelMatrix_uninit [of "rank st" st "rank st" "n_cols (data st)" "rank st" selected h1 h2 g1 g2]
    by simp
  then show ?thesis
    by (simp add: Apply_factor_def new_mat_def assms)
qed

text \<open>
  Claim C7. With a selection policy that is a function of the dataset and the rank, as
  the Ordered policy is, two calls to \<^verbatim>\<open>Apply\<close> for the same dataset, kernel and rank
  end alike and, when they end normally, write identical output matrices. What the
  output argument held before the call, which matrix it is, and what the memory of the
  two local matrices held make no difference.
\<close>

theorem Apply_deterministic:
  assumes "data st' = data st" and "kernel st' = kernel st" and "rank st' = rank st"
  shows "fst (Apply room svd Select h1 h2 output' st') =
           fst (Apply room svd Select g1 g2 output st) \<and>
         (fst (Apply room svd Select g1 g2 output st) = None \<longrightarrow>
            mats (snd (Apply room svd Select h1 h2 output' st')) output' =
            mats (snd (Apply room svd Select g1 g2 output st)) output)"
  using Apply_factor_indep [OF assms, of room svd Select h1 h2 g1 g2]
  by (simp add: Apply_fst Apply_mats split: sum.splits)

text \<open>
  The Ordered policy on two points with rank one: a first call, and a second call on
  the state that the first one left, with other contents of the fresh memory.
\<close>

lemma two_axes_data_kept:
  "data (snd (Apply room64 diag_svd OrderedSelection junk_nan junk_seven 1 (two_axes 1))) =
     data (two_axes 1)"
  by (simp add: data_def Apply_mats Apply_members two_axes_def caller_def split: sum.splits)

theorem Apply_deterministic_witness:
  "data (snd (Apply room64 diag_svd OrderedSelection junk_nan junk_seven 1 (two_axes 1))) =
     data (two_axes 1) \<and>
   kernel (snd (Apply room64 diag_svd OrderedSelection junk_nan junk_seven 1 (two_axes 1))) =
     kernel (two_axes 1) \<and>
   rank (snd (Apply room64 diag_svd OrderedSelection junk_nan junk_seven 1 (two_axes 1))) =
     rank (two_axes 1) \<and>
   fst (Apply room64 diag_svd OrderedSelection junk_nan junk_seven 1 (two_axes 1)) = None \<and>
   fst (Apply room64 diag_svd OrderedSelection junk_seven junk_nan 1
          (snd (Apply room64 diag_svd OrderedSelection junk_nan junk_seven 1 (two_axes 1)))) =
     None \<and>
   mats (snd (Apply room64 diag_svd OrderedSelection junk_seven junk_nan 1
          (snd (Apply room64 diag_svd OrderedSelection junk_nan junk_seven 1 (two_axes 1))))) 1 =
   mats (snd (Apply room64 diag_svd OrderedSelection junk_nan junk_seven 1 (two_axes 1))) 1"
proof -
  let ?st1 = "snd (Apply room64 diag_svd OrderedSelection junk_nan junk_seven 1 (two_axes 1))"
  have same: "data ?st1 = data (two_axes 1)" "kernel ?st1 = kernel (two_axes 1)"
    "rank ?st1 = rank (two_axes 1)"
    by (rule two_axes_data_kept Apply_members)+
  from Apply_deterministic [OF same, of room64 diag_svd OrderedSelection junk_seven junk_nan 1
      junk_nan junk_seven 1] two_axes_success same
  show ?thesis by simp
qed

text \<open>
  The call on two points with rank one when the caller passes the dataset itself as
  the output argument, and the same call with another matrix as the output argument.
\<close>

lemma aliased_success:
  "fst (Apply room64 diag_svd OrderedSelection junk_nan junk_seven 0 (two_axes 1)) = None"
  by (simp add: eval_two_axes)

lemma aliased_before:
  "rows_of (data (two_axes 1)) = [[Fin 2, Fin 0], [Fin 0, Fin 1]]"
  by (simp add: eval_two_axes)

lemma aliased_after:
  "rows_of (data (snd (Apply room64 diag_svd OrderedSelection junk_nan junk_seven 0
                         (two_axes 1)))) = [[Fin 2], [Fin 0]]"
  by (simp add: Apply_members eval_two_axes)

lemma two_axes_printed:
  "cout (snd (Apply room64 diag_svd OrderedSelection junk_nan junk_seven 1 (two_axes 1))) \<noteq> []"
  using Apply_cout [of room64 diag_svd OrderedSelection junk_nan junk_seven 1 "two_axes 1"]
    two_axes_success
  by auto

text \<open>
  Claim C9, as stated, fails. The dataset is a reference member and the output a
  reference argument; when both denote the same matrix, the call overwrites the
  dataset with the factor. And the output matrix is not the only state written: a
  call that ends normally has written to \<^verbatim>\<open>std::cout\<close>.
\<close>

theorem Apply_aliased_counterexample:
  "data_ref (two_axes 1) = 0 \<and>
   fst (Apply room64 diag_svd OrderedSelection junk_nan junk_seven 0 (two_axes 1)) = None \<and>
   rows_of (data (two_axes 1)) = [[Fin 2, Fin 0], [Fin 0, Fin 1]] \<and>
   rows_of (data (snd (Apply room64 diag_svd OrderedSelection junk_nan junk_seven 0
                         (two_axes 1)))) = [[Fin 2], [Fin 0]] \<and>
   data (snd (Apply room64 diag_svd OrderedSelection junk_nan junk_seven 0 (two_axes 1))) \<noteq>
     data (two_axes 1) \<and>
   fst (Apply room64 diag_svd OrderedSelection junk_nan junk_seven 1 (two_axes 1)) = None \<and>
   cout (two_axes 1) = [] \<and>
   cout (snd (Apply room64 diag_svd OrderedSelection junk_nan junk_seven 1 (two_axes 1))) \<noteq> []"
proof -
  have ref: "data_ref (two_axes 1) = 0" "cout (two_axes 1) = []"
    by (simp_all add: two_axes_def caller_def)
  have "rows_of (data (snd (Apply room64 diag_svd OrderedSelection junk_nan junk_seven 0
                         (two_axes 1)))) \<noteq> rows_of (data (two_axes 1))"
    unfolding aliased_before aliased_after by simp
  then have ne: "data (snd (Apply room64 diag_svd OrderedSelection junk_nan junk_seven 0
                         (two_axes 1))) \<noteq> data (two_axes 1)"
    by auto
  from ref aliased_success aliased_before aliased_after ne two_axes_success two_axes_printed
  show ?thesis by blast
qed

text \<open>
  Claim C9, amended. A call to \<^verbatim>\<open>Apply\<close> never modifies the kernel, the stored rank or
  the reference to the dataset, and of the matrices of the caller it writes none but
  the output argument. So when the output argument is not the dataset matrix, the
  dataset is the same before and after the call; when it is the dataset matrix, a call
  that ends normally has replaced the dataset by the factor. After an error no matrix
  has changed. Besides the output matrix a call writes only to \<^verbatim>\<open>std::cout\<close>, where it
  appends, and a call that ends normally has appended something.
\<close>

theorem Apply_frame:
  "kernel (snd (Apply room svd Select g1 g2 output st)) = kernel st \<and>
   rank (snd (Apply room svd Select g1 g2 output st)) = rank st \<and>
   data_ref (snd (Apply room svd Select g1 g2 output st)) = data_ref st \<and>
   (\<forall>r. r \<noteq> output \<longrightarrow> mats (snd (Apply room svd Select g1 g2 output st)) r = mats st r) \<and>
   (output \<noteq> data_ref st \<longrightarrow> data (snd (Apply room svd Select g1 g2 output st)) = data st) \<and>
   (fst (Apply room svd Select g1 g2 output st) = None \<and> output = data_ref st \<longrightarrow>
      Apply_factor room svd Select g1 g2 st =
        Inr (data (snd (Apply room svd Select g1 g2 output st)))) \<and>
   (fst (Apply room svd Select g1 g2 output st) \<noteq> None \<longrightarrow>
      mats (snd (Apply room svd Select g1 g2 output st)) = mats st) \<and>
   (\<exists>es. cout (snd (Apply room svd Select g1 g2 output st)) = cout st @ es \<and>
         (fst (Apply room svd Select g1 g2 output st) = None \<longrightarrow> es \<noteq> []))"
proof (intro conjI allI impI)
  show "kernel (snd (Apply room svd Select g1 g2 output st)) = kernel st"
    "rank (snd (Apply room svd Select g1 g2 output st)) = rank st"
    "data_ref (snd (Apply room svd Select g1 g2 output st)) = data_ref st"
    by (rule Apply_members)+
  show "mats (snd (Apply room svd Select g1 g2 output st)) r = mats st r" if "r \<noteq> output" for r
    using that by (simp add: Apply_mats split: sum.splits)
  show "data (snd (Apply room svd Select g1 g2 output st)) = data st" if "output \<noteq> data_ref st"
    using that by (simp add: data_def Apply_mats Apply_members split: sum.splits)
  show "Apply_factor room svd Select g1 g2 st =
        Inr (data (snd (Apply room svd Select g1 g2 output st)))"
    if "fst (Apply room svd Select g1 g2 output st) = None \<and> output = data_ref st"
    using that by (simp add: data_def Apply_members Apply_success)
  show "mats (snd (Apply room svd Select g1 g2 output st)) = mats st"
    if "fst (Apply room svd Select g1 g2 output st) \<noteq> None"
    using that by (simp add: Apply_fst Apply_mats split: sum.splits)
  show "\<exists>es. cout (snd (Apply room svd Select g1 g2 output st)) = cout st @ es \<and>
         (fst (Apply room svd Select g1 g2 output st) = None \<longrightarrow> es \<noteq> [])"
    by (rule Apply_cout)
qed

text \<open>
  Two points: a call with rank one and a separate output matrix, which ends normally;
  the same call with the dataset as the output; and a call with rank three, which ends
  with an error.
\<close>

lemma two_axes_failure:
  "fst (Apply room64 diag_svd OrderedSelection junk_nan junk_seven 1 (two_axes 3)) \<noteq> None"
  by (simp add: eval_two_axes)

theorem Apply_frame_witness:
  "(1::nat) \<noteq> data_ref (two_axes 1) \<and>
   fst (Apply room64 diag_svd OrderedSelection junk_nan junk_seven 1 (two_axes 1)) = None \<and>
   data (snd (Apply room64 diag_svd OrderedSelection junk_nan junk_seven 1 (two_axes 1))) =
     data (two_axes 1) \<and>
   mats (snd (Apply room64 diag_svd OrderedSelection junk_nan junk_seven 1 (two_axes 1))) 0 =
     mats (two_axes 1) 0 \<and>
   (0::nat) = data_ref (two_axes 1) \<and>
   fst (Apply room64 diag_svd OrderedSelection junk_nan junk_seven 0 (two_axes 1)) = None \<and>
   Apply_factor room64 diag_svd OrderedSelection junk_nan junk_seven (two_axes 1) =
     Inr (data (snd (Apply room64 diag_svd OrderedSelection junk_nan junk_seven 0 (two_axes 1)))) \<and>
   fst (Apply room64 diag_svd OrderedSelection junk_nan junk_seven 1 (two_axes 3)) \<noteq> None \<and>
   mats (snd (Apply room64 diag_svd OrderedSelection junk_nan junk_seven 1 (two_axes 3))) =
     mats (two_axes 3)"
proof -
  have ref: "(1::nat) \<noteq> data_ref (two_axes 1)" "(0::nat) = data_ref (two_axes 1)"
    "(0::nat) \<noteq> 1"
    by (simp_all add: two_axes_def caller_def)
  note A = Apply_frame [of room64 diag_svd OrderedSelection junk_nan junk_seven 1 "two_axes 1"]
  note B = Apply_frame [of room64 diag_svd OrderedSelection junk_nan junk_seven 0 "two_axes 1"]
  note C = Apply_frame [of room64 diag_svd OrderedSelection junk_nan junk_seven 1 "two_axes 3"]
  from A ref have a1: "data (snd (Apply room64 diag_svd OrderedSelection junk_nan junk_seven 1
      (two_axes 1))) = data (two_axes 1)"
    by blast
  from A ref(3) have a2: "mats (snd (Apply room64 diag_svd OrderedSelection junk_nan junk_seven 1
      (two_axes 1))) 0 = mats (two_axes 1) 0"
    by blast
  from B ref(2) aliased_success
  have b: "Apply_factor room64 diag_svd OrderedSelection junk_nan junk_seven (two_axes 1) =
     Inr (data (snd (Apply room64 diag_svd OrderedSelection junk_nan junk_seven 0 (two_axes 1))))"
    by blast
  from C two_axes_failure
  have c: "mats (snd (Apply room64 diag_svd OrderedSelection junk_nan junk_seven 1 (two_axes 3))) =
     mats (two_axes 3)"
    by blast
  from ref a1 a2 aliased_success b two_axes_success two_axes_failure c show ?thesis by blast
qed

section \<open>Exactness at full rank\<close>

text \<open>Sums of finite values are the sums of the reals they denote.\<close>

lemma foldl_dadd_Fin:
  "foldl dadd (Fin a) (map (\<lambda>k. Fin (f k)) xs) = Fin (a + sum_list (map f xs))"
  by (induction xs arbitrary: a) (simp_all add: add.assoc)

lemma sum_list_upt: "sum_list (map f [0..<n]) = (\<Sum>k<n. f k)" for f :: "nat \<Rightarrow> real"
  by (induction n) simp_all

lemma times_mat_cell_Fin:
  assumes "i < n_rows A" and "j < n_cols B"
    and "\<And>k. k < n_cols A \<Longrightarrow> cell A (i, k) = Fin (a k)"
    and "\<And>k. k < n_cols A \<Longrightarrow> cell B (k, j) = Fin (b k)"
  shows "cell (times_mat A B) (i, j) = Fin (\<Sum>k<n_cols A. a k * b k)"
proof -
  have m: "map (\<lambda>k. dmul (cell A (i, k)) (cell B (k, j))) [0..<n_cols A] =
           map (\<lambda>k. Fin (a k * b k)) [0..<n_cols A]"
    by (rule map_cong) (simp_all add: assms(3,4))
  have "cell (times_mat A B) (i, j) =
        foldl dadd (Fin 0) (map (\<lambda>k. dmul (cell A (i, k)) (cell B (k, j))) [0..<n_cols A])"
    using assms(1,2) by (simp add: times_mat_def)
  also have "\<dots> = foldl dadd (Fin 0) (map (\<lambda>k. Fin (a k * b k)) [0..<n_cols A])"
    by (simp only: m)
  also have "\<dots> = Fin (0 + sum_list (map (\<lambda>k. a k * b k) [0..<n_cols A]))"
    by (rule foldl_dadd_Fin)
  finally show ?thesis
    by (simp add: sum_list_upt)
qed

lemma trans_mat_simps [simp]:
  "n_rows (trans_mat M) = n_cols M" "n_cols (trans_mat M) = n_rows M"
  "i < n_cols M \<Longrightarrow> j < n_rows M \<Longrightarrow> cell (trans_mat M) (i, j) = cell M (j, i)"
  by (simp_all add: trans_mat_def)

lemma diagmat_dims [simp]: "n_rows (diagmat s) = length s" "n_cols (diagmat s) = length s"
  by (simp_all add: diagmat_def)

lemma Fin_re: "is_finite d \<Longrightarrow> d = Fin (re d)"
  by (cases d) simp_all

text \<open>The two steps of the computation over the reals.\<close>

lemma gram_step_A:
  fixes u :: "nat \<Rightarrow> nat \<Rightarrow> real" and \<sigma> :: "nat \<Rightarrow> real"
  assumes O1: "\<And>a b. a < n \<Longrightarrow> b < n \<Longrightarrow> (\<Sum>k<n. u k a * u k b) = (if a = b then 1 else 0)"
    and K: "\<And>m. m < n \<Longrightarrow> \<kappa> m = (\<Sum>a<n. u i a * \<sigma> a * u m a)"
    and b: "b < n"
  shows "(\<Sum>m<n. \<kappa> m * u m b) = u i b * \<sigma> b"
proof -
  have "(\<Sum>m<n. \<kappa> m * u m b) = (\<Sum>m<n. \<Sum>a<n. u i a * \<sigma> a * (u m a * u m b))"
    by (intro sum.cong refl) (simp add: K sum_distrib_right mult.assoc)
  also have "\<dots> = (\<Sum>a<n. \<Sum>m<n. u i a * \<sigma> a * (u m a * u m b))"
    by (rule sum.swap)
  also have "\<dots> = (\<Sum>a<n. u i a * \<sigma> a * (\<Sum>m<n. u m a * u m b))"
    by (simp add: sum_distrib_left)
  also have "\<dots> = (\<Sum>a<n. u i a * \<sigma> a * (if a = b then 1 else 0))"
    by (intro sum.cong refl) (simp add: O1 b)
  also have "\<dots> = (\<Sum>a<n. if a = b then u i b * \<sigma> b else 0)"
    by (intro sum.cong refl) simp
  also have "\<dots> = u i b * \<sigma> b"
    using b by (simp add: sum.delta)
  finally show ?thesis .
qed

lemma gram_step_D:
  fixes u :: "nat \<Rightarrow> nat \<Rightarrow> real" and \<sigma> :: "nat \<Rightarrow> real"
  assumes O2: "\<And>a b. a < n \<Longrightarrow> b < n \<Longrightarrow> (\<Sum>k<n. u a k * u b k) = (if a = b then 1 else 0)"
    and pos: "\<And>a. a < n \<Longrightarrow> 0 < \<sigma> a"
  shows "(\<Sum>l<n. (\<Sum>b<n. u i b * sqrt (\<sigma> b) * u b l) * (\<Sum>c<n. u j c * sqrt (\<sigma> c) * u c l)) =
         (\<Sum>a<n. u i a * \<sigma> a * u j a)"
proof -
  let ?p = "\<lambda>b. u i b * sqrt (\<sigma> b)" and ?q = "\<lambda>c. u j c * sqrt (\<sigma> c)"
  have "(\<Sum>l<n. (\<Sum>b<n. ?p b * u b l) * (\<Sum>c<n. ?q c * u c l)) =
        (\<Sum>l<n. \<Sum>b<n. \<Sum>c<n. ?p b * ?q c * (u b l * u c l))"
    by (intro sum.cong refl) (simp add: sum_product mult_ac)
  also have "\<dots> = (\<Sum>b<n. \<Sum>l<n. \<Sum>c<n. ?p b * ?q c * (u b l * u c l))"
    by (rule sum.swap)
  also have "\<dots> = (\<Sum>b<n. \<Sum>c<n. \<Sum>l<n. ?p b * ?q c * (u b l * u c l))"
    by (intro sum.cong refl sum.swap)
  also have "\<dots> = (\<Sum>b<n. \<Sum>c<n. ?p b * ?q c * (\<Sum>l<n. u b l * u c l))"
    by (simp add: sum_distrib_left)
  also have "\<dots> = (\<Sum>b<n. \<Sum>c<n. ?p b * ?q c * (if b = c then 1 else 0))"
    by (intro sum.cong refl) (simp add: O2)
  also have "\<dots> = (\<Sum>b<n. \<Sum>c<n. if c = b then ?p b * ?q b else 0)"
    by (intro sum.cong refl) simp
  also have "\<dots> = (\<Sum>b<n. ?p b * ?q b)"
    by (intro sum.cong refl) (simp add: sum.delta)
  also have "\<dots> = (\<Sum>a<n. u i a * \<sigma> a * u j a)"
  proof (intro sum.cong refl)
    fix a assume "a \<in> {..<n}"
    then have "0 \<le> \<sigma> a" using pos [of a] by simp
    then have "sqrt (\<sigma> a) * sqrt (\<sigma> a) = \<sigma> a" by simp
    then have "u i a * u j a * (sqrt (\<sigma> a) * sqrt (\<sigma> a)) = u i a * u j a * \<sigma> a" by simp
    then show "?p a * ?q a = u i a * \<sigma> a * u j a" by (simp add: mult_ac)
  qed
  finally show ?thesis .
qed

text \<open>
  With a decomposition \<open>K = U \<cdot> diag(s) \<cdot> U\<^sup>t\<close>, \<open>U\<close> orthogonal and \<open>s\<close> positive, the factor
  \<open>G = K \<cdot> U \<cdot> N \<cdot> U\<close> has \<open>G \<cdot> G\<^sup>t = K\<close>, entry by entry.
\<close>

lemma exact_gram:
  assumes P: "positive_svd n K U s" and K: "n_rows K = n" "n_cols K = n"
    and i: "i < n" and j: "j < n"
  shows "\<exists>x. cell (gram (times_mat (times_mat (times_mat K U) (normalization_of s)) U)) (i, j) =
               Fin x \<and> cell K (i, j) = Fin x"
proof -
  define u where "u = (\<lambda>i a. re (cell U (i, a)))"
  define \<sigma> where "\<sigma> = (\<lambda>a. re (s ! a))"
  define \<kappa> where "\<kappa> = (\<lambda>i j. \<Sum>a<n. u i a * \<sigma> a * u j a)"
  from P have dims: "n_rows U = n" "n_cols U = n" "length s = n"
    by (simp_all add: positive_svd_def)
  have U: "cell U (p, a) = Fin (u p a)" if "p < n" "a < n" for p a
    using P that by (simp add: positive_svd_def u_def Fin_re)
  have s: "s ! a = Fin (\<sigma> a)" and pos: "0 < \<sigma> a" if "a < n" for a
    using P that by (auto simp: positive_svd_def \<sigma>_def)
  have O1: "(\<Sum>k<n. u k a * u k b) = (if a = b then 1 else 0)" if "a < n" "b < n" for a b
  proof -
    have "cell (times_mat (trans_mat U) U) (a, b) = Fin (\<Sum>k<n_cols (trans_mat U). u k a * u k b)"
      by (rule times_mat_cell_Fin) (simp_all add: dims that U)
    moreover have "cell (times_mat (trans_mat U) U) (a, b) = (if a = b then Fin 1 else Fin 0)"
      using P that by (simp add: positive_svd_def is_identity_def)
    ultimately show ?thesis by (simp add: dims split: if_splits)
  qed
  have O2: "(\<Sum>k<n. u a k * u b k) = (if a = b then 1 else 0)" if "a < n" "b < n" for a b
  proof -
    have "cell (times_mat U (trans_mat U)) (a, b) = Fin (\<Sum>k<n_cols U. u a k * u b k)"
      by (rule times_mat_cell_Fin) (simp_all add: dims that U)
    moreover have "cell (times_mat U (trans_mat U)) (a, b) = (if a = b then Fin 1 else Fin 0)"
      using P that by (simp add: positive_svd_def is_identity_def)
    ultimately show ?thesis by (simp add: dims split: if_splits)
  qed
  have UD: "cell (times_mat U (diagmat s)) (p, a) = Fin (u p a * \<sigma> a)" if "p < n" "a < n" for p a
  proof -
    have "cell (times_mat U (diagmat s)) (p, a) =
          Fin (\<Sum>b<n_cols U. u p b * (if b = a then \<sigma> a else 0))"
      by (rule times_mat_cell_Fin) (simp_all add: dims that U s diagmat_def)
    also have "(\<Sum>b<n_cols U. u p b * (if b = a then \<sigma> a else 0)) =
               (\<Sum>b<n. if b = a then u p a * \<sigma> a else 0)"
      unfolding dims by (intro sum.cong refl) simp
    also have "\<dots> = u p a * \<sigma> a"
      using that by (simp add: sum.delta)
    finally show ?thesis .
  qed
  have Kc: "cell K (p, q) = Fin (\<kappa> p q)" if "p < n" "q < n" for p q
  proof -
    have "cell (times_mat (times_mat U (diagmat s)) (trans_mat U)) (p, q) =
          Fin (\<Sum>a<n_cols (times_mat U (diagmat s)). (u p a * \<sigma> a) * u q a)"
      by (rule times_mat_cell_Fin) (simp_all add: dims that U UD)
    moreover have "cell (times_mat (times_mat U (diagmat s)) (trans_mat U)) (p, q) = cell K (p, q)"
      using P that by (simp add: positive_svd_def)
    ultimately show ?thesis
      by (simp add: \<kappa>_def dims)
  qed
  have T1: "cell (times_mat K U) (p, b) = Fin (u p b * \<sigma> b)" if "p < n" "b < n" for p b
  proof -
    have "cell (times_mat K U) (p, b) = Fin (\<Sum>m<n_cols K. \<kappa> p m * u m b)"
      by (rule times_mat_cell_Fin) (simp_all add: dims K that U Kc)
    also have "(\<Sum>m<n_cols K. \<kappa> p m * u m b) = u p b * \<sigma> b"
      unfolding K by (rule gram_step_A [where u = u and \<sigma> = \<sigma> and i = p, OF O1 _ that(2)])
          (simp_all add: \<kappa>_def)
    finally show ?thesis .
  qed
  have N: "cell (normalization_of s) (c, b) = Fin (if c = b then 1 / sqrt (\<sigma> b) else 0)"
    if "c < n" "b < n" for c b
    using that s [of b] pos [of b] by (simp add: normalization_of_def diagmat_def dims)
  have T2: "cell (times_mat (times_mat K U) (normalization_of s)) (p, b) = Fin (u p b * sqrt (\<sigma> b))"
    if "p < n" "b < n" for p b
  proof -
    have "cell (times_mat (times_mat K U) (normalization_of s)) (p, b) =
          Fin (\<Sum>c<n_cols (times_mat K U). (u p c * \<sigma> c) * (if c = b then 1 / sqrt (\<sigma> b) else 0))"
      by (rule times_mat_cell_Fin) (simp_all add: dims K that T1 N)
    also have "(\<Sum>c<n_cols (times_mat K U). (u p c * \<sigma> c) * (if c = b then 1 / sqrt (\<sigma> b) else 0)) =
               (\<Sum>c<n. if c = b then u p b * \<sigma> b / sqrt (\<sigma> b) else 0)"
      unfolding times_mat_dims normalization_of_dims dims by (intro sum.cong refl) simp
    also have "\<dots> = u p b * \<sigma> b / sqrt (\<sigma> b)"
      using that by (simp add: sum.delta)
    also have "\<dots> = u p b * (\<sigma> b / sqrt (\<sigma> b))"
      by (rule times_divide_eq_right [symmetric])
    also have "\<sigma> b / sqrt (\<sigma> b) = sqrt (\<sigma> b)"
      by (rule real_div_sqrt) (rule less_imp_le, rule pos, rule that)
    finally show ?thesis .
  qed
  let ?G = "times_mat (times_mat (times_mat K U) (normalization_of s)) U"
  have G: "cell ?G (p, l) = Fin (\<Sum>b<n. u p b * sqrt (\<sigma> b) * u b l)" if "p < n" "l < n" for p l
  proof -
    have "cell ?G (p, l) =
          Fin (\<Sum>b<n_cols (times_mat (times_mat K U) (normalization_of s)).
                 (u p b * sqrt (\<sigma> b)) * u b l)"
      by (rule times_mat_cell_Fin) (simp_all add: dims K that T2 U)
    then show ?thesis by (simp add: dims)
  qed
  have "cell (gram ?G) (i, j) =
        Fin (\<Sum>l<n_cols ?G. (\<Sum>b<n. u i b * sqrt (\<sigma> b) * u b l) * (\<Sum>c<n. u j c * sqrt (\<sigma> c) * u c l))"
    unfolding gram_def
    by (rule times_mat_cell_Fin) (simp_all add: dims K i j G)
  also have "(\<Sum>l<n_cols ?G. (\<Sum>b<n. u i b * sqrt (\<sigma> b) * u b l) * (\<Sum>c<n. u j c * sqrt (\<sigma> c) * u c l)) =
             \<kappa> i j"
    unfolding \<kappa>_def using gram_step_D [where u = u and \<sigma> = \<sigma> and n = n and i = i and j = j, OF O2 pos]
    by (simp add: dims)
  finally have "cell (gram ?G) (i, j) = Fin (\<kappa> i j)" .
  with Kc [OF i j] show ?thesis by blast
qed

text \<open>
  When the rank is the number of points and the landmarks are the points in order, both
  blocks are the matrix of kernel values of all pairs of points.
\<close>

lemma GetKernelMatrix_indices_rest:
  assumes "GetKernelMatrix_indices st selectedPoints miniKernel semiKernel = Inr (mk, sk)"
  shows "\<not> (i < rank st \<and> j < rank st) \<Longrightarrow> cell mk (i, j) = cell miniKernel (i, j)"
    and "\<not> (i < n_cols (data st) \<and> j < rank st) \<Longrightarrow> cell sk (i, j) = cell semiKernel (i, j)"
proof -
  let ?rhs1 = "\<lambda>i j. bind_res (idx_at selectedPoints i) (\<lambda>p.
                  bind_res (col (data st) p) (\<lambda>a.
                  bind_res (idx_at selectedPoints j) (\<lambda>q.
                  bind_res (col (data st) q) (\<lambda>b.
                  Inr (kernel st a b)))))"
  let ?rhs2 = "\<lambda>i j. bind_res (col (data st) i) (\<lambda>a.
                  bind_res (idx_at selectedPoints j) (\<lambda>q.
                  bind_res (col (data st) q) (\<lambda>b.
                  Inr (kernel st a b))))"
  from assms have m: "for_cells (rank st) (rank st) ?rhs1 miniKernel = Inr mk"
    and s: "for_cells (n_cols (data st)) (rank st) ?rhs2 semiKernel = Inr sk"
    by (auto simp: GetKernelMatrix_indices_def bind_res_eq_Inr)
  show "\<not> (i < rank st \<and> j < rank st) \<Longrightarrow> cell mk (i, j) = cell miniKernel (i, j)"
    by (rule for_cells_Inr(4) [OF m])
  show "\<not> (i < n_cols (data st) \<and> j < rank st) \<Longrightarrow> cell sk (i, j) = cell semiKernel (i, j)"
    by (rule for_cells_Inr(4) [OF s])
qed

lemma GetKernelMatrix_full:
  assumes n: "rank st = n_cols (data st)"
  shows "GetKernelMatrix st (Indices [0..<rank st])
           (uninit_mat (rank st) (rank st) g1) (uninit_mat (n_cols (data st)) (rank st) g2) =
         Inr (full_kernel st, full_kernel st)"
proof -
  let ?M = "uninit_mat (rank st) (rank st) g1"
  let ?S = "uninit_mat (n_cols (data st)) (rank st) g2"
  have "\<exists>mk sk. GetKernelMatrix_indices st [0..<rank st] ?M ?S = Inr (mk, sk)"
    by (rule GetKernelMatrix_indices_total) (simp_all add: n uninit_mat_def)
  then obtain mk sk where r: "GetKernelMatrix_indices st [0..<rank st] ?M ?S = Inr (mk, sk)"
    by blast
  note I = GetKernelMatrix_indices_Inr [OF r] and R = GetKernelMatrix_indices_rest [OF r]
  have "cell mk p = cell (full_kernel st) p" for p
  proof (cases p)
    case (Pair i j)
    show ?thesis
    proof (cases "i < rank st \<and> j < rank st")
      case True
      then show ?thesis using I(5) [of i j] by (simp add: Pair full_kernel_def n)
    next
      case False
      with R(1) have "cell mk (i, j) = cell ?M (i, j)" by blast
      also from False have "\<dots> = Fin 0" by (auto simp: uninit_mat_def)
      also from False have "Fin 0 = cell (full_kernel st) (i, j)" by (auto simp: full_kernel_def n)
      finally show ?thesis by (simp add: Pair)
    qed
  qed
  then have "cell mk = cell (full_kernel st)" by (rule ext)
  moreover have "n_rows mk = n_rows (full_kernel st)" "n_cols mk = n_cols (full_kernel st)"
    using I(1,2) by (simp_all add: full_kernel_def uninit_mat_def n)
  ultimately have mk: "mk = full_kernel st" by simp
  have "cell sk p = cell (full_kernel st) p" for p
  proof (cases p)
    case (Pair i j)
    show ?thesis
    proof (cases "i < n_cols (data st) \<and> j < rank st")
      case True
      then show ?thesis using I(6) [of i j] by (simp add: Pair full_kernel_def n)
    next
      case False
      with R(2) have "cell sk (i, j) = cell ?S (i, j)" by blast
      also from False have "\<dots> = Fin 0" by (auto simp: uninit_mat_def)
      also from False have "Fin 0 = cell (full_kernel st) (i, j)" by (auto simp: full_kernel_def n)
      finally show ?thesis by (simp add: Pair)
    qed
  qed
  then have "cell sk = cell (full_kernel st)" by (rule ext)
  moreover have "n_rows sk = n_rows (full_kernel st)" "n_cols sk = n_cols (full_kernel st)"
    using I(3,4) by (simp_all add: full_kernel_def uninit_mat_def n)
  ultimately have sk: "sk = full_kernel st" by simp
  from r mk sk show ?thesis by simp
qed

lemma Apply_factor_full:
  assumes n: "rank st = n_cols (data st)"
    and sel: "Select (data st) (rank st) = Inr (Indices [0..<rank st])"
    and room: "room (rank st) (rank st)"
    and svd: "svd (full_kernel st) = (U, s, U)"
    and P: "positive_svd (rank st) (full_kernel st) U s"
  shows "Apply_factor room svd Select g1 g2 st =
         Inr (times_mat (times_mat (times_mat (full_kernel st) U) (normalization_of s)) U)"
proof -
  from P have dims: "n_rows U = rank st" "n_cols U = rank st" "length s = rank st"
    by (simp_all add: positive_svd_def)
  have K: "n_rows (full_kernel st) = rank st" "n_cols (full_kernel st) = rank st"
    by (simp_all add: full_kernel_def n)
  have room': "room (n_cols (data st)) (rank st)"
    using room n by simp
  have G: "GetKernelMatrix st (Indices [0..<rank st])
             (uninit_mat (rank st) (rank st) g1) (uninit_mat (n_cols (data st)) (rank st) g2) =
           Inr (full_kernel st, full_kernel st)"
    by (rule GetKernelMatrix_full [OF n])
  then have G': "GetKernelMatrix_indices st [0..<rank st]
             (uninit_mat (rank st) (rank st) g1) (uninit_mat (n_cols (data st)) (rank st) g2) =
           Inr (full_kernel st, full_kernel st)"
    by simp
  show ?thesis
    unfolding Apply_factor_def new_mat_def
    by (simp add: room room' sel G' svd mul_def dims K)
qed



lemma all_less_two: "(\<forall>i<2. P i) \<longleftrightarrow> P 0 \<and> P (Suc 0)" for P :: "nat \<Rightarrow> bool"
  by (auto simp: less_2_cases_iff)

lemma two_axes_full_kernel:
  "rows_of (full_kernel (two_axes 2)) = [[Fin 4, Fin 0], [Fin 0, Fin 1]]"
  by (simp add: eval_model two_axes_def full_kernel_def)

lemma two_axes_full_svd:
  "diag_svd (full_kernel (two_axes 2)) = (identity_mat 2, [Fin 4, Fin 1], identity_mat 2)"
  by (simp add: eval_two_axes full_kernel_def numeral_2_eq_2)

lemma two_axes_positive_svd:
  "positive_svd (rank (two_axes 2)) (full_kernel (two_axes 2)) (identity_mat 2) [Fin 4, Fin 1]"
  unfolding positive_svd_def is_identity_def
  by (simp add: eval_model two_axes_def full_kernel_def identity_mat_def trans_mat_def
      all_less_two)


end
